theory Spec2Isabelle
  imports Complex_Main "HOL-Library.AList" "HOL-Library.Multiset"
begin

section \<open>JavaScript values\<close>

text \<open>
  The listings handled by the AirBnB data handlers are JavaScript objects whose fields hold
  numbers, text, booleans, \<open>null\<close> or nothing at all. Numbers are modelled exactly: a finite
  number is a rational, next to the two infinities and NaN. Sums, differences and the
  numbers read from text are exact: the rounding of IEEE double arithmetic and its overflow
  to an infinity are left out there, and so is the sign of zero. Where the digits of a
  double decide what the code writes (the price per room, the text of a number used as a
  property key) the double nearest to the exact number is taken, with \<open>to_double\<close>. Text is
  a list of 8-bit characters; of the white space that the parsing functions skip, only the
  ASCII characters are modelled.

  \<open>xnum\<close> is a number other than NaN, \<open>jsnum\<close> any number.
\<close>

datatype xnum = NInf | Fin rat | PInf

datatype jsnum = NaN | Num xnum

text \<open>
  A string is either literal text or \<open>Decimal q\<close>, the text that \<open>Number.prototype.toString\<close>
  gives for the finite number \<open>q\<close>. The digits of that text are not computed; the model uses
  what ECMAScript fixes about it: it is not empty, holds no \<open>$\<close> and no comma, reads back as
  \<open>q\<close>, and is written in exponent notation exactly when \<open>q\<close> is not zero and lies outside
  \<open>1e-6 \<le> |q| < 1e21\<close>.
\<close>

datatype jstring = Lit string | Decimal rat

datatype jsval = JUndefined | JNull | JBool bool | JNum jsnum | JStr jstring

text \<open>A listing is an object: its own fields in creation order.\<close>

type_synonym listing = "(string \<times> jsval) list"

definition get :: "listing \<Rightarrow> string \<Rightarrow> jsval" where
  \<comment> \<open>\<open>item[prop]\<close>: reading a field that is absent gives \<open>undefined\<close>.\<close>
  "get item prop = (case map_of item prop of None \<Rightarrow> JUndefined | Some v \<Rightarrow> v)"

subsection \<open>Arithmetic and comparison of numbers\<close>

fun truthy :: "jsnum \<Rightarrow> bool" where
  "truthy NaN = False"
| "truthy (Num (Fin q)) = (q \<noteq> 0)"
| "truthy (Num _) = True"

definition or_zero :: "jsnum \<Rightarrow> jsnum" where
  \<comment> \<open>\<open>x || 0\<close> on a number \<open>x\<close>.\<close>
  "or_zero x = (if truthy x then x else Num (Fin 0))"

fun is_finite :: "jsnum \<Rightarrow> bool" where
  \<comment> \<open>\<open>Number.isFinite\<close>\<close>
  "is_finite (Num (Fin q)) = True"
| "is_finite _ = False"

fun xle :: "xnum \<Rightarrow> xnum \<Rightarrow> bool" where
  "xle NInf _ = True"
| "xle _ PInf = True"
| "xle (Fin a) (Fin b) = (a \<le> b)"
| "xle _ _ = False"

text \<open>The order of the numbers other than NaN: \<open>-Infinity\<close>, the finite numbers, \<open>Infinity\<close>.\<close>

instantiation xnum :: linorder
begin

definition less_eq_xnum :: "xnum \<Rightarrow> xnum \<Rightarrow> bool" where
  "less_eq_xnum a b = xle a b"

definition less_xnum :: "xnum \<Rightarrow> xnum \<Rightarrow> bool" where
  "less_xnum a b = (xle a b \<and> \<not> xle b a)"

instance
proof
  fix x y z :: xnum
  show "(x < y) = (x \<le> y \<and> \<not> y \<le> x)"
    by (simp add: less_xnum_def less_eq_xnum_def)
  show "x \<le> x"
    by (cases x) (simp_all add: less_eq_xnum_def)
  show "x \<le> y \<Longrightarrow> y \<le> z \<Longrightarrow> x \<le> z"
    by (cases x; cases y; cases z) (simp_all add: less_eq_xnum_def)
  show "x \<le> y \<Longrightarrow> y \<le> x \<Longrightarrow> x = y"
    by (cases x; cases y) (simp_all add: less_eq_xnum_def)
  show "x \<le> y \<or> y \<le> x"
    by (cases x; cases y) (auto simp: less_eq_xnum_def)
qed

end

fun js_le :: "jsnum \<Rightarrow> jsnum \<Rightarrow> bool" where
  \<comment> \<open>\<open>a <= b\<close>: false as soon as one side is NaN.\<close>
  "js_le (Num a) (Num b) = xle a b"
| "js_le _ _ = False"

definition js_ge :: "jsnum \<Rightarrow> jsnum \<Rightarrow> bool" where
  "js_ge a b = js_le b a"

fun js_gt :: "jsnum \<Rightarrow> jsnum \<Rightarrow> bool" where
  \<comment> \<open>\<open>a > b\<close>.\<close>
  "js_gt (Num a) (Num b) = (\<not> xle a b)"
| "js_gt _ _ = False"

fun js_add :: "jsnum \<Rightarrow> jsnum \<Rightarrow> jsnum" where
  "js_add (Num (Fin a)) (Num (Fin b)) = Num (Fin (a + b))"
| "js_add (Num PInf) (Num NInf) = NaN"
| "js_add (Num NInf) (Num PInf) = NaN"
| "js_add (Num PInf) (Num _) = Num PInf"
| "js_add (Num NInf) (Num _) = Num NInf"
| "js_add (Num _) (Num b) = Num b"
| "js_add _ _ = NaN"

fun js_neg :: "jsnum \<Rightarrow> jsnum" where
  "js_neg NaN = NaN"
| "js_neg (Num (Fin a)) = Num (Fin (- a))"
| "js_neg (Num PInf) = Num NInf"
| "js_neg (Num NInf) = Num PInf"

definition js_sub :: "jsnum \<Rightarrow> jsnum \<Rightarrow> jsnum" where
  "js_sub a b = js_add a (js_neg b)"

fun js_div :: "jsnum \<Rightarrow> jsnum \<Rightarrow> jsnum" where
  \<comment> \<open>Division never fails: a zero divisor gives NaN or an infinity.\<close>
  "js_div (Num (Fin a)) (Num (Fin b)) =
     (if b \<noteq> 0 then Num (Fin (a / b))
      else if a = 0 then NaN
      else if 0 < a then Num PInf else Num NInf)"
| "js_div (Num (Fin a)) (Num _) = Num (Fin 0)"
| "js_div (Num PInf) (Num (Fin b)) = (if 0 \<le> b then Num PInf else Num NInf)"
| "js_div (Num NInf) (Num (Fin b)) = (if 0 \<le> b then Num NInf else Num PInf)"
| "js_div _ _ = NaN"

subsection \<open>Doubles\<close>

text \<open>
  A JavaScript number is an IEEE 754 double: 53 significant bits, exponents from -1022 to
  1023, subnormal numbers below, and rounding to the nearest double with a tie going to the
  even one. \<open>to_double q\<close> is the double nearest to the rational \<open>q\<close>, an infinity when
  the rounded magnitude reaches \<open>2^1024\<close>.
\<close>

fun bit_length :: "nat \<Rightarrow> nat" where
  \<comment> \<open>The number of binary digits of a natural number.\<close>
  "bit_length n = (if n < 2 then 1 else Suc (bit_length (n div 2)))"

declare bit_length.simps [simp del]

definition pow2 :: "int \<Rightarrow> rat" where
  "pow2 e = (if 0 \<le> e then 2 ^ nat e else 1 / 2 ^ nat (- e))"

definition binary_exponent :: "rat \<Rightarrow> int" where
  \<comment> \<open>For \<open>a > 0\<close>: the \<open>e\<close> with \<open>2^e \<le> a < 2^(e+1)\<close>.\<close>
  "binary_exponent a =
     (if 1 \<le> a then int (bit_length (nat \<lfloor>a\<rfloor>)) - 1
      else (let b = int (bit_length (nat \<lfloor>1 / a\<rfloor>))
            in if a * 2 ^ nat (b - 1) = 1 then - (b - 1) else - b))"

definition round_half_even :: "rat \<Rightarrow> int" where
  "round_half_even m =
     (let f = \<lfloor>m\<rfloor>; d = m - of_int f
      in if d < 1 / 2 then f else if 1 / 2 < d then f + 1 else if even f then f else f + 1)"

definition to_double :: "rat \<Rightarrow> jsnum" where
  "to_double q =
     (if q = 0 then Num (Fin 0)
      else
        (let a = \<bar>q\<bar>;
             e = max (binary_exponent a) (- 1022);
             ulp = pow2 (e - 52);
             r = of_int (round_half_even (a / ulp)) * ulp
         in if pow2 1024 \<le> r then Num (if q < 0 then NInf else PInf)
            else Num (Fin (if q < 0 then - r else r))))"

fun as_double :: "jsnum \<Rightarrow> jsnum" where
  "as_double (Num (Fin q)) = to_double q"
| "as_double x = x"

subsection \<open>Reading numbers from text\<close>

definition is_space :: "char \<Rightarrow> bool" where
  \<comment> \<open>The ASCII white space that \<open>parseFloat\<close> and \<open>parseInt\<close> skip: TAB, LF, VT, FF, CR, SP.\<close>
  "is_space c = (of_char c \<in> {9, 10, 11, 12, 13, 32 :: nat})"

definition is_digit :: "char \<Rightarrow> bool" where
  "is_digit c = (48 \<le> (of_char c :: nat) \<and> (of_char c :: nat) \<le> 57)"

definition digit_val :: "char \<Rightarrow> nat" where
  "digit_val c = of_char c - 48"

definition nat_of_digits :: "string \<Rightarrow> nat" where
  "nat_of_digits ds = foldl (\<lambda>n c. 10 * n + digit_val c) 0 ds"

definition read_sign :: "string \<Rightarrow> bool \<times> string" where
  \<comment> \<open>An optional \<open>+\<close> or \<open>-\<close>; the flag says the text is negated.\<close>
  "read_sign s =
     (case s of
        c # r \<Rightarrow> if c = CHR ''-'' then (True, r) else if c = CHR ''+'' then (False, r) else (False, s)
      | [] \<Rightarrow> (False, s))"

definition pow10 :: "int \<Rightarrow> rat" where
  "pow10 e = (if 0 \<le> e then 10 ^ nat e else 1 / 10 ^ nat (- e))"

definition read_exponent :: "string \<Rightarrow> int" where
  \<comment> \<open>An exponent part \<open>e\<close>, sign, digits; it counts only when a digit follows.\<close>
  "read_exponent s =
     (case s of
        c # r \<Rightarrow>
          if c = CHR ''e'' \<or> c = CHR ''E'' then
            (let (neg, t) = read_sign r; ds = takeWhile is_digit t
             in if ds = [] then 0
                else if neg then - int (nat_of_digits ds) else int (nat_of_digits ds))
          else 0
      | [] \<Rightarrow> 0)"

definition parseFloat_text :: "string \<Rightarrow> jsnum" where
  \<comment> \<open>\<open>parseFloat\<close> on literal text: the longest prefix, after white space, that is a decimal
      literal (\<open>Infinity\<close> included) counts; no such prefix gives NaN.\<close>
  "parseFloat_text s =
     (let (neg, u) = read_sign (dropWhile is_space s)
      in if take 8 u = ''Infinity'' then Num (if neg then NInf else PInf)
         else
           (let ip = takeWhile is_digit u; r1 = dropWhile is_digit u;
                (fp, r2) = (case r1 of
                              c # r \<Rightarrow> if c = CHR ''.'' then (takeWhile is_digit r, dropWhile is_digit r)
                                       else ([], r1)
                            | [] \<Rightarrow> ([], r1))
            in if ip = [] \<and> fp = [] then NaN
               else
                 (let m = of_nat (nat_of_digits (ip @ fp)) * pow10 (read_exponent r2 - int (length fp))
                  in Num (Fin (if neg then - m else m)))))"

definition is_hex :: "char \<Rightarrow> bool" where
  "is_hex c = (is_digit c \<or> c \<in> set ''abcdefABCDEF'')"

definition hex_val :: "char \<Rightarrow> nat" where
  "hex_val c =
     (if is_digit c then digit_val c
      else if (of_char c :: nat) \<ge> 97 then of_char c - 87 else of_char c - 55)"

definition parseInt_text :: "string \<Rightarrow> jsnum" where
  \<comment> \<open>\<open>parseInt\<close> with no radix on literal text: white space, sign, an optional \<open>0x\<close>, then the
      longest run of digits of the radix; no digit gives NaN.\<close>
  "parseInt_text s =
     (let (neg, u) = read_sign (dropWhile is_space s);
          hex = (take 2 u = ''0x'' \<or> take 2 u = ''0X'');
          ds = (if hex then takeWhile is_hex (drop 2 u) else takeWhile is_digit u)
      in if ds = [] then NaN
         else
           (let m = (if hex then foldl (\<lambda>n c. 16 * n + hex_val c) 0 ds else nat_of_digits ds)
            in Num (Fin (if neg then - of_nat m else of_nat m))))"

fun lead_digit :: "nat \<Rightarrow> nat" where
  \<comment> \<open>The first decimal digit of a natural number.\<close>
  "lead_digit n = (if n < 10 then n else lead_digit (n div 10))"

fun num_digits :: "nat \<Rightarrow> nat" where
  "num_digits n = (if n < 10 then 1 else Suc (num_digits (n div 10)))"

declare lead_digit.simps [simp del]

declare num_digits.simps [simp del]

definition lead_significant :: "rat \<Rightarrow> nat" where
  \<comment> \<open>The first significant decimal digit of a positive rational.\<close>
  "lead_significant q =
     (if 1 \<le> q then lead_digit (nat \<lfloor>q\<rfloor>)
      else (let v = nat \<lfloor>q * 10 ^ num_digits (nat \<lfloor>1 / q\<rfloor>)\<rfloor> in if 10 \<le> v then 1 else v))"

definition parseInt_decimal :: "rat \<Rightarrow> jsnum" where
  \<comment> \<open>\<open>parseInt\<close> on the text of a finite number \<open>q\<close>: the integer part when the text is plain
      decimal, the signed first digit when it is in exponent notation.\<close>
  "parseInt_decimal q =
     (if q = 0 \<or> (1 / 10 ^ 6 \<le> \<bar>q\<bar> \<and> \<bar>q\<bar> < 10 ^ 21)
      then Num (Fin (if q < 0 then - of_int \<lfloor>- q\<rfloor> else of_int \<lfloor>q\<rfloor>))
      else Num (Fin (if q < 0 then - of_nat (lead_significant (- q)) else of_nat (lead_significant q))))"

fun parseFloat :: "jstring \<Rightarrow> jsnum" where
  "parseFloat (Lit s) = parseFloat_text s"
| "parseFloat (Decimal q) = Num (Fin q)"

fun parseInt :: "jstring \<Rightarrow> jsnum" where
  "parseInt (Lit s) = parseInt_text s"
| "parseInt (Decimal q) = parseInt_decimal q"

fun ToString :: "jsval \<Rightarrow> jstring" where
  "ToString JUndefined = Lit ''undefined''"
| "ToString JNull = Lit ''null''"
| "ToString (JBool b) = Lit (if b then ''true'' else ''false'')"
| "ToString (JNum NaN) = Lit ''NaN''"
| "ToString (JNum (Num PInf)) = Lit ''Infinity''"
| "ToString (JNum (Num NInf)) = Lit ''-Infinity''"
| "ToString (JNum (Num (Fin q))) = Decimal q"
| "ToString (JStr s) = s"

fun strip_currency :: "jstring \<Rightarrow> jstring" where
  \<comment> \<open>\<open>.replace(/[$,]/g, '')\<close>\<close>
  "strip_currency (Lit s) = Lit (filter (\<lambda>c. c \<noteq> CHR ''$'' \<and> c \<noteq> CHR '','') s)"
| "strip_currency (Decimal q) = Decimal q"

fun is_empty :: "jstring \<Rightarrow> bool" where
  "is_empty (Lit s) = (s = [])"
| "is_empty (Decimal q) = False"

subsection \<open>Writing numbers as text\<close>

fun dec_digits :: "nat \<Rightarrow> string" where
  \<comment> \<open>The decimal digits of a natural number.\<close>
  "dec_digits n =
     (if n < 10 then [char_of (48 + n)] else dec_digits (n div 10) @ [char_of (48 + n mod 10)])"

declare dec_digits.simps [simp del]

text \<open>
  \<open>Number.prototype.toString\<close> writes a double \<open>x\<close> with as few significant digits as read
  back as \<open>x\<close>: digits \<open>s\<close> and a position \<open>n\<close> of the decimal point with
  \<open>s \<times> 10^(n - k)\<close> nearest to \<open>x\<close> among the texts of \<open>k\<close> digits, \<open>k\<close> as small as
  possible, an even \<open>s\<close> of two equally near. Of the texts of \<open>k\<close> digits only the two
  next to \<open>x\<close> can read back as \<open>x\<close>. Seventeen digits always do.
\<close>

definition decimal_exponent :: "rat \<Rightarrow> int" where
  \<comment> \<open>For \<open>x > 0\<close>: the \<open>E\<close> with \<open>10^E \<le> x < 10^(E+1)\<close>.\<close>
  "decimal_exponent x =
     (if 1 \<le> x then int (num_digits (nat \<lfloor>x\<rfloor>)) - 1
      else (let d = int (num_digits (nat \<lfloor>1 / x\<rfloor>))
            in if x * 10 ^ nat (d - 1) = 1 then - (d - 1) else - d))"

definition scale_of :: "nat \<Rightarrow> rat \<Rightarrow> rat" where
  \<comment> \<open>The value of the last of \<open>k\<close> significant digits of \<open>x\<close>.\<close>
  "scale_of k x = pow10 (decimal_exponent x - int k + 1)"

definition lower_digits :: "nat \<Rightarrow> rat \<Rightarrow> nat" where
  "lower_digits k x = nat \<lfloor>x / scale_of k x\<rfloor>"

definition nearest_digits :: "nat \<Rightarrow> rat \<Rightarrow> nat" where
  "nearest_digits k x =
     (let lo = lower_digits k x;
          below = x - of_nat lo * scale_of k x;
          above = of_nat (Suc lo) * scale_of k x - x
      in if below < above then lo else if above < below then Suc lo
         else if even lo then lo else Suc lo)"

definition reads_back :: "nat \<Rightarrow> rat \<Rightarrow> nat \<Rightarrow> bool" where
  "reads_back k x s = (to_double (of_nat s * scale_of k x) = Num (Fin x))"

definition finish_digits :: "nat \<Rightarrow> rat \<Rightarrow> nat \<Rightarrow> nat \<times> int" where
  \<comment> \<open>The digits and the position of the point; \<open>10^k\<close> is the one digit 1, a place higher.\<close>
  "finish_digits k x s =
     (if s = 10 ^ k then (1, decimal_exponent x + 2) else (s, decimal_exponent x + 1))"

fun shortest_digits :: "nat \<Rightarrow> nat \<Rightarrow> rat \<Rightarrow> nat \<times> int" where
  "shortest_digits 0 k x = finish_digits k x (nearest_digits k x)"
| "shortest_digits (Suc fuel) k x =
     (let lo = lower_digits k x
      in if reads_back k x lo \<and> reads_back k x (Suc lo) then finish_digits k x (nearest_digits k x)
         else if reads_back k x lo then finish_digits k x lo
         else if reads_back k x (Suc lo) then finish_digits k x (Suc lo)
         else shortest_digits fuel (Suc k) x)"

definition digits_text :: "nat \<times> int \<Rightarrow> string" where
  \<comment> \<open>Plain decimal when the point lies within 21 places after or 6 places before the
      digits, exponent notation otherwise.\<close>
  "digits_text sn =
     (let ds = dec_digits (fst sn); k = int (length ds); n = snd sn
      in if k \<le> n \<and> n \<le> 21 then ds @ replicate (nat (n - k)) (CHR ''0'')
         else if 0 < n \<and> n \<le> 21 then take (nat n) ds @ ''.'' @ drop (nat n) ds
         else if - 6 < n \<and> n \<le> 0 then ''0.'' @ replicate (nat (- n)) (CHR ''0'') @ ds
         else
           (let e = n - 1;
                es = (if e < 0 then ''-'' else ''+'') @ dec_digits (nat \<bar>e\<bar>)
            in if k = 1 then ds @ ''e'' @ es else hd ds # ''.'' @ tl ds @ ''e'' @ es))"

definition number_text :: "rat \<Rightarrow> string" where
  \<comment> \<open>The text of the number \<open>q\<close>. A whole number below \<open>2^53\<close> is written with all its
      digits; that is what the search for the shortest digits gives for it.\<close>
  "number_text q =
     (if of_int \<lfloor>q\<rfloor> = q \<and> \<bar>q\<bar> < 2 ^ 53
      then (if q < 0 then ''-'' else []) @ dec_digits (nat \<lfloor>\<bar>q\<bar>\<rfloor>)
      else
        (case to_double q of
           NaN \<Rightarrow> ''NaN''
         | Num PInf \<Rightarrow> ''Infinity''
         | Num NInf \<Rightarrow> ''-Infinity''
         | Num (Fin x) \<Rightarrow>
             if x = 0 then ''0''
             else (if x < 0 then ''-'' else []) @ digits_text (shortest_digits 17 1 \<bar>x\<bar>)))"

section \<open>The pure handler\<close>

subsection \<open>getNumber\<close>

definition getNumber :: "listing \<Rightarrow> string \<Rightarrow> jsnum" where
  \<comment> \<open>\<open>const value = item[prop]?.toString().replace(/[$,]/g, '') || '0';
      return parseFloat(value) || 0;\<close>\<close>
  "getNumber item prop =
     (let value =
        (case get item prop of
           JUndefined \<Rightarrow> Lit ''0''
         | JNull \<Rightarrow> Lit ''0''
         | v \<Rightarrow> (let s = strip_currency (ToString v) in if is_empty s then Lit ''0'' else s))
      in or_zero (parseFloat value))"

subsection \<open>filterListings\<close>

text \<open>
  The six bounds of a filter. Every caller in the repository builds them with
  \<open>!isNaN(x) ? x : 0\<close>, so a bound is a number other than NaN.
\<close>

definition bound :: "jsnum \<Rightarrow> xnum" where
  \<comment> \<open>\<open>!isNaN(x) ? x : 0\<close>\<close>
  "bound x = (case x of NaN \<Rightarrow> Fin 0 | Num v \<Rightarrow> v)"

record filters =
  price_min :: xnum
  price_max :: xnum
  room_min :: xnum
  room_max :: xnum
  score_min :: xnum
  score_max :: xnum

definition filterListings :: "listing list \<Rightarrow> filters \<Rightarrow> listing list" where
  "filterListings data fs =
     filter (\<lambda>listing.
       (let price = getNumber listing ''price'';
            bedrooms = getNumber listing ''bedrooms'';
            score = getNumber listing ''review_scores_rating''
        in (\<not> truthy (Num (price_max fs))
              \<or> (js_ge price (Num (price_min fs)) \<and> js_le price (Num (price_max fs))))
         \<and> (\<not> truthy (Num (room_max fs))
              \<or> (js_ge bedrooms (Num (room_min fs)) \<and> js_le bedrooms (Num (room_max fs))))
         \<and> (\<not> truthy (Num (score_max fs))
              \<or> (js_ge score (Num (score_min fs)) \<and> js_le score (Num (score_max fs)))))) data"




subsection \<open>calculateStats\<close>

record stats =
  count :: nat
  averagePrice :: jsnum
  avgPricePerRoom :: jsnum
  validListings :: nat

definition calculateStats :: "listing list \<Rightarrow> stats" where
  "calculateStats data =
     (let totalPrice = foldl (\<lambda>sum item. js_add sum (getNumber item ''price'')) (Num (Fin 0)) data;
          totalRooms = foldl (\<lambda>sum item. js_add sum (getNumber item ''bedrooms'')) (Num (Fin 0)) data
      in \<lparr> count = length data,
           averagePrice = js_div totalPrice (Num (Fin (of_nat (length data)))),
           avgPricePerRoom = js_div totalPrice totalRooms,
           validListings =
             length (filter (\<lambda>item. case get item ''host_id'' of
                                       JNum n \<Rightarrow> js_gt n (Num (Fin 0))
                                     | _ \<Rightarrow> False) data) \<rparr>)"

text \<open>The sum of a sequence of numbers, for the statement of the averages.\<close>

primrec sum_numbers :: "jsnum list \<Rightarrow> jsnum" where
  "sum_numbers [] = Num (Fin 0)"
| "sum_numbers (x # xs) = js_add x (sum_numbers xs)"

subsection \<open>Sorting\<close>

text \<open>
  \<open>Array.prototype.sort\<close> with a comparator is stable, and a comparator result of NaN counts
  as zero. For a consistent comparator the sorted order is unique, so the sort is modelled by
  a stable insertion sort: an element moves behind the elements the comparator puts strictly
  before it.
\<close>

fun sort_insert :: "('a \<Rightarrow> 'a \<Rightarrow> jsnum) \<Rightarrow> 'a \<Rightarrow> 'a list \<Rightarrow> 'a list" where
  "sort_insert cmp x [] = [x]"
| "sort_insert cmp x (y # ys) =
     (if js_gt (cmp x y) (Num (Fin 0)) then y # sort_insert cmp x ys else x # y # ys)"

definition js_sort :: "('a \<Rightarrow> 'a \<Rightarrow> jsnum) \<Rightarrow> 'a list \<Rightarrow> 'a list" where
  "js_sort cmp xs = foldr (sort_insert cmp) xs []"

definition createComparator :: "('a \<Rightarrow> jsnum) \<Rightarrow> 'a \<Rightarrow> 'a \<Rightarrow> jsnum" where
  "createComparator getValue = (\<lambda>a b. js_sub (getValue a) (getValue b))"

definition slice :: "'a list \<Rightarrow> int \<Rightarrow> 'a list" where
  \<comment> \<open>\<open>xs.slice(0, end)\<close> for an integer \<open>end\<close>: a negative end counts from the back.\<close>
  "slice xs e = (if e < 0 then take (nat (int (length xs) + e)) xs else take (nat e) xs)"

subsection \<open>rankHosts\<close>

text \<open>
  The hosts are grouped in an object keyed by \<open>listing.host_id\<close>. A property key is a string:
  the id is converted with \<open>ToString\<close>. Keys that are array indices (the canonical text of an
  integer from 0 to 4294967294) are enumerated first, in ascending order, and the other keys
  follow in the order of their creation. The key of a number is the text that
  \<open>Number.prototype.toString\<close> writes for it, so a number and the text spelling it are one
  key.
\<close>

definition is_index_text :: "string \<Rightarrow> bool" where
  "is_index_text s =
     (s \<noteq> [] \<and> list_all is_digit s \<and> (s = ''0'' \<or> hd s \<noteq> CHR ''0'')
      \<and> nat_of_digits s \<le> 4294967294)"

datatype pkey = Index nat | Name string

definition key_of_text :: "string \<Rightarrow> pkey" where
  "key_of_text s = (if is_index_text s then Index (nat_of_digits s) else Name s)"

fun key_of :: "jstring \<Rightarrow> pkey" where
  "key_of (Lit s) = key_of_text s"
| "key_of (Decimal q) = key_of_text (number_text q)"

definition ToPropertyKey :: "jsval \<Rightarrow> pkey" where
  "ToPropertyKey v = key_of (ToString v)"

fun is_index :: "pkey \<Rightarrow> bool" where
  "is_index (Index n) = True"
| "is_index (Name s) = False"

fun index_of :: "pkey \<Rightarrow> nat" where
  "index_of (Index n) = n"
| "index_of (Name s) = 0"

text \<open>
  An object is the list of its own properties in creation order; \<open>own_entries\<close> is the order
  in which \<open>Object.entries\<close> and the spread \<open>{...acc}\<close> enumerate them. A host's entry holds
  the name and the count. The pure handler reads only \<open>acc[id]?.count\<close>, which is undefined or
  NaN for a property that \<open>acc\<close> inherits, so that \<open>|| 0\<close> gives 0 as for an absent one.
\<close>

type_synonym hosts = "(pkey \<times> (jsval \<times> nat)) list"

definition own_entries :: "(pkey \<times> 'v) list \<Rightarrow> (pkey \<times> 'v) list" where
  "own_entries obj =
     sort_key (\<lambda>e. index_of (fst e)) (filter (\<lambda>e. is_index (fst e)) obj)
     @ filter (\<lambda>e. \<not> is_index (fst e)) obj"

definition by_count :: "pkey \<times> (jsval \<times> nat) \<Rightarrow> pkey \<times> (jsval \<times> nat) \<Rightarrow> jsnum" where
  \<comment> \<open>\<open>(a, b) => b[1].count - a[1].count\<close>\<close>
  "by_count a b = js_sub (Num (Fin (of_nat (snd (snd b))))) (Num (Fin (of_nat (snd (snd a)))))"

definition rankHosts :: "listing list \<Rightarrow> hosts" where
  \<comment> \<open>Every step builds a new object: the entries of \<open>acc\<close> as the spread enumerates them,
      then the property of this listing's host, with this listing's name.\<close>
  "rankHosts data =
     js_sort by_count
       (own_entries
         (foldl (\<lambda>acc listing.
                   AList.update (ToPropertyKey (get listing ''host_id''))
                     (get listing ''host_name'',
                      (case map_of acc (ToPropertyKey (get listing ''host_id'')) of
                         Some g \<Rightarrow> snd g | None \<Rightarrow> 0) + 1)
                     (own_entries acc))
                [] data))"

section \<open>Arrays in a store\<close>

text \<open>
  A dataset is an array, and an array is a mutable object: two variables can hold the same
  array. Arrays live in a store under addresses; a fresh array takes the next free address.
  The listings in an array are kept by value.
\<close>

record store =
  arr :: "nat \<Rightarrow> listing list"
  fresh :: nat

definition alloc :: "store \<Rightarrow> listing list \<Rightarrow> store \<times> nat" where
  "alloc st xs = (st\<lparr>arr := (arr st)(fresh st := xs), fresh := Suc (fresh st)\<rparr>, fresh st)"

definition sort_in_place :: "store \<Rightarrow> nat \<Rightarrow> (listing \<Rightarrow> listing \<Rightarrow> jsnum) \<Rightarrow> store" where
  \<comment> \<open>\<open>a.sort(cmp)\<close> rearranges the array \<open>a\<close> itself.\<close>
  "sort_in_place st a cmp = st\<lparr>arr := (arr st)(a := js_sort cmp (arr st a))\<rparr>"

subsection \<open>The methods of the pure handler\<close>

text \<open>A handler closes over its dataset: it is the address of that array.\<close>

definition handler_filter :: "store \<Rightarrow> nat \<Rightarrow> filters \<Rightarrow> store \<times> nat" where
  "handler_filter st d fs = alloc st (filterListings (arr st d) fs)"

definition handler_computeStats :: "store \<Rightarrow> nat \<Rightarrow> stats" where
  "handler_computeStats st d = calculateStats (arr st d)"

definition handler_rankHosts :: "store \<Rightarrow> nat \<Rightarrow> int option \<Rightarrow> hosts" where
  \<comment> \<open>\<open>rankHosts(limit = 10)\<close>\<close>
  "handler_rankHosts st d limit =
     slice (rankHosts (arr st d)) (case limit of None \<Rightarrow> 10 | Some n \<Rightarrow> n)"

definition handler_order :: "store \<Rightarrow> nat \<Rightarrow> string \<Rightarrow> store \<times> nat" where
  \<comment> \<open>\<open>[...data].sort(comparator)\<close>: the copy is sorted, not \<open>data\<close>.\<close>
  "handler_order st d property =
     (let comparator = createComparator (\<lambda>item. getNumber item property);
          (st1, c) = alloc st (arr st d)
      in (sort_in_place st1 c comparator, c))"

section \<open>The mutating handler\<close>

text \<open>
  The earlier handler keeps two variables, \<open>data\<close> and \<open>filteredListings\<close>, and its methods
  work on them. \<open>data\<close> is undefined until a file is read. The rows that \<open>filter\<close> selects are
  the very objects of \<open>data\<close>; since listings are kept by value here, the annotation that
  \<open>computeStats\<close> attaches to a row shows in \<open>filteredListings\<close> only.
\<close>

datatype error = TypeError

record handler =
  heap :: store
  data :: "nat option"
  filteredListings :: nat

definition AirBnBDataHandler :: "store \<Rightarrow> handler" where
  \<comment> \<open>\<open>let data; let filteredListings = [];\<close>\<close>
  "AirBnBDataHandler st =
     (let (st1, a) = alloc st [] in \<lparr> heap = st1, data = None, filteredListings = a \<rparr>)"

definition readCsv :: "listing list \<Rightarrow> handler \<Rightarrow> handler" where
  \<comment> \<open>The rows are what the CSV decoder returns for the file.\<close>
  "readCsv rows h = (let (st1, a) = alloc (heap h) rows in h\<lparr>heap := st1, data := Some a\<rparr>)"

definition price_of :: "listing \<Rightarrow> jsnum" where
  \<comment> \<open>\<open>parseFloat(listing.price?.toString().replace(/[$,]/g, '')) || 0\<close>\<close>
  "price_of listing =
     or_zero (parseFloat (case get listing ''price'' of
                            JUndefined \<Rightarrow> Lit ''undefined''
                          | JNull \<Rightarrow> Lit ''undefined''
                          | v \<Rightarrow> strip_currency (ToString v)))"

definition bedrooms_of :: "listing \<Rightarrow> jsnum" where
  \<comment> \<open>\<open>parseInt(listing.bedrooms) || 0\<close>\<close>
  "bedrooms_of listing = or_zero (parseInt (ToString (get listing ''bedrooms'')))"

definition score_of :: "listing \<Rightarrow> jsnum" where
  \<comment> \<open>\<open>parseFloat(listing.review_scores_rating) || 0\<close>\<close>
  "score_of listing = or_zero (parseFloat (ToString (get listing ''review_scores_rating'')))"

definition filter_mut :: "filters \<Rightarrow> handler \<Rightarrow> error + handler" where
  "filter_mut fs h =
     (case data h of
        None \<Rightarrow> Inl TypeError
      | Some d \<Rightarrow>
          (let (st1, a) =
             alloc (heap h)
               (filter (\<lambda>listing.
                  (let price = price_of listing;
                       bedrooms = bedrooms_of listing;
                       score = score_of listing;
                       priceFilter = (price_max fs = Fin 0
                          \<or> (js_ge price (Num (price_min fs)) \<and> js_le price (Num (price_max fs))));
                       roomFilter = (room_max fs = Fin 0
                          \<or> (js_ge bedrooms (Num (room_min fs)) \<and> js_le bedrooms (Num (room_max fs))));
                       scoreFilter = (score_max fs = Fin 0
                          \<or> (js_ge score (Num (score_min fs)) \<and> js_le score (Num (score_max fs))))
                   in priceFilter \<and> roomFilter \<and> scoreFilter))
                (arr (heap h) d))
           in Inr (h\<lparr>heap := st1, filteredListings := a\<rparr>)))"

subsection \<open>computeStats\<close>

definition fixed_hundredths :: "rat \<Rightarrow> nat" where
  \<comment> \<open>For \<open>x \<ge> 0\<close>: the integer \<open>n\<close> with \<open>n / 100\<close> nearest to \<open>x\<close>, the larger one of two.\<close>
  "fixed_hundredths x = nat \<lfloor>x * 100 + 1 / 2\<rfloor>"

definition toFixed2 :: "jsnum \<Rightarrow> jstring" where
  \<comment> \<open>\<open>x.toFixed(2)\<close>: the sign is set apart, the magnitude rounded to hundredths and
      written with at least one digit before the point; a number that is not finite or
      reaches \<open>1e21\<close> is written as \<open>toString\<close> writes it.\<close>
  "toFixed2 x =
     (case x of
        NaN \<Rightarrow> Lit ''NaN''
      | Num PInf \<Rightarrow> Lit ''Infinity''
      | Num NInf \<Rightarrow> Lit ''-Infinity''
      | Num (Fin q) \<Rightarrow>
          if 10 ^ 21 \<le> \<bar>q\<bar> then Decimal q
          else
            (let m = dec_digits (fixed_hundredths \<bar>q\<bar>);
                 m' = replicate (3 - length m) (CHR ''0'') @ m
             in Lit ((if q < 0 then ''-'' else [])
                     @ take (length m' - 2) m' @ ''.'' @ drop (length m' - 2) m')))"

definition or_one :: "jsnum \<Rightarrow> jsnum" where
  \<comment> \<open>\<open>rooms || 1\<close>\<close>
  "or_one x = (if truthy x then x else Num (Fin 1))"

fun js_mul :: "jsnum \<Rightarrow> jsnum \<Rightarrow> jsnum" where
  "js_mul (Num (Fin a)) (Num (Fin b)) = Num (Fin (a * b))"
| "js_mul (Num (Fin a)) (Num b) =
     (if a = 0 then NaN else if 0 < a then Num b else js_neg (Num b))"
| "js_mul (Num a) (Num (Fin b)) =
     (if b = 0 then NaN else if 0 < b then Num a else js_neg (Num a))"
| "js_mul (Num a) (Num b) = (if a = b then Num PInf else Num NInf)"
| "js_mul _ _ = NaN"

fun Math_round :: "jsnum \<Rightarrow> jsnum" where
  \<comment> \<open>\<open>Math.round\<close>: the nearest integer, a tie going up.\<close>
  "Math_round (Num (Fin q)) = Num (Fin (of_int \<lfloor>q + 1 / 2\<rfloor>))"
| "Math_round x = x"

text \<open>
  The digits of \<open>price_per_room\<close> are those of a double: \<open>price\<close> and \<open>rooms\<close> are the doubles
  nearest to the numbers read, their quotient is rounded to a double again, and \<open>toFixed\<close>
  rounds the exact value of that double.
\<close>

definition room_quotient :: "listing \<Rightarrow> jsnum" where
  \<comment> \<open>\<open>price / (rooms || 1)\<close>\<close>
  "room_quotient row =
     as_double (js_div (as_double (price_of row)) (as_double (or_one (bedrooms_of row))))"

definition price_per_room :: "listing \<Rightarrow> jstring" where
  \<comment> \<open>\<open>(price / (rooms || 1)).toFixed(2)\<close>\<close>
  "price_per_room row = toFixed2 (room_quotient row)"

text \<open>
  \<open>computeStats\<close> prints three numbers and gives every row of \<open>filteredListings\<close> its
  \<open>price_per_room\<close>. The model returns the handler and the numbers printed: the count of
  rows with a valid host id, the average price and the average price per room.
\<close>

definition computeStats_mut :: "handler \<Rightarrow> handler \<times> (nat \<times> jsnum \<times> jsnum)" where
  "computeStats_mut h =
     (let rows = arr (heap h) (filteredListings h);
          valid = length (filter (\<lambda>row. case get row ''host_id'' of
                                           JNum n \<Rightarrow> js_gt n (Num (Fin 0))
                                         | _ \<Rightarrow> False) rows);
          totalPrice = foldl (\<lambda>t row. js_add t (price_of row)) (Num (Fin 0)) rows;
          totalRooms = foldl (\<lambda>t row. js_add t (bedrooms_of row)) (Num (Fin 0)) rows;
          rows' = map (\<lambda>row. AList.update ''price_per_room'' (JStr (price_per_room row)) row) rows;
          hundred = Num (Fin 100);
          len = Num (Fin (of_nat (length rows)))
      in (h\<lparr>heap := (heap h)\<lparr>arr := (arr (heap h))(filteredListings h := rows')\<rparr>\<rparr>,
          (valid,
           js_div (Math_round (js_mul (js_div totalPrice len) hundred)) hundred,
           js_div (Math_round (js_mul (js_div totalPrice totalRooms) hundred)) hundred)))"

subsection \<open>rankHosts\<close>

text \<open>
  The hosts object starts as \<open>{}\<close> and \<open>acc[id]\<close> is read before anything is stored, so an id
  that names a property every object inherits from \<open>Object.prototype\<close> finds that property.
  For the methods it is a function, which is truthy: \<open>acc[id] = acc[id]\<close> stores the function
  as the entry, its \<open>name\<close> is what is printed, and \<open>count++\<close> on it gives NaN. For \<open>__proto__\<close>
  the value read is \<open>Object.prototype\<close> and the assignment goes to the setter, so the object
  gets no entry. The count of an entry is a number here, since it can be NaN. With a NaN
  among the counts the comparator is not consistent and ECMAScript leaves the sorted order
  to the implementation; the order of \<open>js_sort\<close> is then one of the orders allowed.
\<close>

definition inherited_function :: "pkey \<Rightarrow> string option" where
  \<comment> \<open>The \<open>name\<close> of the function that an empty object inherits under this key.\<close>
  "inherited_function k =
     (case k of
        Index n \<Rightarrow> None
      | Name s \<Rightarrow>
          if s = ''constructor'' then Some ''Object''
          else if s \<in> set [''toString'', ''toLocaleString'', ''valueOf'', ''hasOwnProperty'',
                            ''isPrototypeOf'', ''propertyIsEnumerable'', ''__defineGetter__'',
                            ''__defineSetter__'', ''__lookupGetter__'', ''__lookupSetter__'']
          then Some s else None)"

definition inherited :: "pkey \<Rightarrow> bool" where
  "inherited k = (k = Name ''__proto__'' \<or> inherited_function k \<noteq> None)"

type_synonym counted_hosts = "(pkey \<times> (jsval \<times> jsnum)) list"

definition by_count_mut :: "pkey \<times> (jsval \<times> jsnum) \<Rightarrow> pkey \<times> (jsval \<times> jsnum) \<Rightarrow> jsnum" where
  \<comment> \<open>\<open>(a, b) => b[1].count - a[1].count\<close>\<close>
  "by_count_mut a b = js_sub (snd (snd b)) (snd (snd a))"

definition sortedHosts :: "listing list \<Rightarrow> counted_hosts" where
  \<comment> \<open>\<open>acc[id] = acc[id] || { name, count: 0 }; acc[id].count++\<close>, then the entries sorted.\<close>
  "sortedHosts rows =
     js_sort by_count_mut
       (own_entries
         (foldl (\<lambda>acc listing.
                   (case map_of acc (ToPropertyKey (get listing ''host_id'')) of
                      Some g \<Rightarrow>
                        AList.update (ToPropertyKey (get listing ''host_id''))
                          (fst g, js_add (snd g) (Num (Fin 1))) acc
                    | None \<Rightarrow>
                        if ToPropertyKey (get listing ''host_id'') = Name ''__proto__'' then acc
                        else
                          (case inherited_function (ToPropertyKey (get listing ''host_id'')) of
                             Some f \<Rightarrow>
                               AList.update (ToPropertyKey (get listing ''host_id''))
                                 (JStr (Lit f), NaN) acc
                           | None \<Rightarrow>
                               AList.update (ToPropertyKey (get listing ''host_id''))
                                 (get listing ''host_name'', Num (Fin 1)) acc)))
                [] rows))"

definition rankHosts_mut :: "handler \<Rightarrow> counted_hosts" where
  \<comment> \<open>The entries that are printed: \<open>sortedHosts.slice(0, 10)\<close>.\<close>
  "rankHosts_mut h = slice (sortedHosts (arr (heap h) (filteredListings h))) 10"

subsection \<open>order\<close>

definition getNumericValue :: "string \<Rightarrow> listing \<Rightarrow> jsnum" where
  "getNumericValue property item =
     (let value =
        (case get item property of
           JUndefined \<Rightarrow> Lit ''0''
         | JNull \<Rightarrow> Lit ''0''
         | v \<Rightarrow> (let s = strip_currency (ToString v) in if is_empty s then Lit ''0'' else s))
      in or_zero (parseFloat value))"

definition order_mut :: "string \<Rightarrow> handler \<Rightarrow> error + handler" where
  \<comment> \<open>The message printed first reads \<open>filteredListings[0][property]\<close>: on an empty array
      \<open>filteredListings[0]\<close> is undefined and reading its property throws. Then the array is
      sorted where it is.\<close>
  "order_mut property h =
     (if arr (heap h) (filteredListings h) = [] then Inl TypeError
      else Inr (h\<lparr>heap :=
                   sort_in_place (heap h) (filteredListings h)
                     (\<lambda>a b. (let valueB = getNumericValue property b;
                                 valueA = getNumericValue property a
                             in js_sub valueA valueB))\<rparr>))"

section \<open>Example data and reference definitions\<close>

definition no_filter :: filters where
  \<comment> \<open>The default criteria: every bound zero.\<close>
  "no_filter = \<lparr> price_min = Fin 0, price_max = Fin 0, room_min = Fin 0, room_max = Fin 0,
                  score_min = Fin 0, score_max = Fin 0 \<rparr>"

definition listing_a1 :: listing where
  "listing_a1 = [(''price'', JStr (Lit ''$200'')), (''bedrooms'', JNum (Num (Fin 2))),
                 (''review_scores_rating'', JNum (Num (Fin (9 / 2)))),
                 (''host_id'', JNum (Num (Fin 1))), (''host_name'', JStr (Lit ''A''))]"

definition listing_a2 :: listing where
  "listing_a2 = [(''price'', JStr (Lit ''$100'')), (''bedrooms'', JNum (Num (Fin 1))),
                 (''review_scores_rating'', JNum (Num (Fin 3))),
                 (''host_id'', JNum (Num (Fin 1))), (''host_name'', JStr (Lit ''A''))]"

definition listing_b :: listing where
  "listing_b = [(''price'', JStr (Lit ''$50'')), (''bedrooms'', JNum (Num (Fin 1))),
                (''review_scores_rating'', JNum (Num (Fin 5))),
                (''host_id'', JNum (Num (Fin 2))), (''host_name'', JStr (Lit ''B''))]"

definition studio :: listing where
  "studio = [(''price'', JStr (Lit ''$100'')), (''bedrooms'', JNum (Num (Fin 0)))]"

definition empty_store :: store where
  "empty_store = \<lparr> arr = (\<lambda>a. []), fresh = 0 \<rparr>"

definition working :: handler where
  \<comment> \<open>The mutating handler after it has read two listings and filtered with no bound.\<close>
  "working =
     \<lparr> heap = \<lparr> arr = (\<lambda>a. [])(0 := [], 1 := [listing_a1, listing_b], 2 := [listing_a1, listing_b]),
                 fresh = 3 \<rparr>,
       data = Some 1, filteredListings = 2 \<rparr>"

definition price_above_1000 :: filters where
  "price_above_1000 = \<lparr> price_min = Fin 1000, price_max = Fin 2000, room_min = Fin 0,
                          room_max = Fin 0, score_min = Fin 0, score_max = Fin 0 \<rparr>"

definition emptied :: handler where
  \<comment> \<open>The mutating handler after a filter that no listing passes.\<close>
  "emptied =
     \<lparr> heap = \<lparr> arr = (\<lambda>a. [])(0 := [], 1 := [listing_a1, listing_b], 2 := []), fresh = 3 \<rparr>,
       data = Some 1, filteredListings = 2 \<rparr>"

definition array_at :: "nat \<Rightarrow> error + handler \<Rightarrow> listing list option" where
  \<comment> \<open>What the array at an address holds once a method has returned.\<close>
  "array_at a r = (case r of Inl e \<Rightarrow> None | Inr h \<Rightarrow> Some (arr (heap h) a))"

definition studio_100 :: listing where
  \<comment> \<open>The example of the specification: no bedroom, price 100.\<close>
  "studio_100 = [(''price'', JNum (Num (Fin 100))), (''bedrooms'', JNum (Num (Fin 0)))]"

definition negative_rooms :: listing where
  "negative_rooms = [(''price'', JNum (Num (Fin 100))), (''bedrooms'', JNum (Num (Fin (- 2))))]"

definition odd_cents :: listing where
  \<comment> \<open>A price whose half is a decimal tie at the hundredths digit.\<close>
  "odd_cents = [(''price'', JStr (Lit ''$2.01'')), (''bedrooms'', JNum (Num (Fin 2)))]"

definition quarter :: listing where
  \<comment> \<open>A price whose half is a tie at the hundredths digit as a double too.\<close>
  "quarter = [(''price'', JStr (Lit ''$0.25'')), (''bedrooms'', JNum (Num (Fin 2)))]"

definition priced :: handler where
  \<comment> \<open>The mutating handler after it has read these two listings and filtered with no bound.\<close>
  "priced =
     \<lparr> heap = \<lparr> arr = (\<lambda>a. [])(0 := [], 1 := [odd_cents, quarter], 2 := [odd_cents, quarter]),
                 fresh = 3 \<rparr>,
       data = Some 1, filteredListings = 2 \<rparr>"

definition round_half_away :: "rat \<Rightarrow> rat" where
  \<comment> \<open>Rounding to hundredths, a tie going away from zero.\<close>
  "round_half_away q =
     (if q < 0 then - (of_int \<lfloor>- q * 100 + 1 / 2\<rfloor> / 100) else of_int \<lfloor>q * 100 + 1 / 2\<rfloor> / 100)"

definition half_room :: listing where
  "half_room = [(''price'', JStr (Lit ''$80'')), (''bedrooms'', JNum (Num (Fin (5 / 2))))]"

definition two_rooms :: filters where
  "two_rooms = \<lparr> price_min = Fin 0, price_max = Fin 0, room_min = Fin 2, room_max = Fin 2,
                  score_min = Fin 0, score_max = Fin 0 \<rparr>"

definition loaded_half :: handler where
  \<comment> \<open>The mutating handler after it has read the one listing \<open>half_room\<close>.\<close>
  "loaded_half =
     \<lparr> heap = \<lparr> arr = (\<lambda>a. [])(0 := [], 1 := [half_room]), fresh = 2 \<rparr>,
       data = Some 1, filteredListings = 0 \<rparr>"

text \<open>
  The values on which integer parsing and floating-point parsing of the bedrooms agree, and
  the review scores that stripping \<open>$\<close> and \<open>,\<close> leaves as they are.
\<close>

definition whole_rooms :: "jsval \<Rightarrow> bool" where
  "whole_rooms v =
     (case v of
        JStr s \<Rightarrow> False
      | JNum (Num (Fin q)) \<Rightarrow> of_int \<lfloor>q\<rfloor> = q \<and> \<bar>q\<bar> < 10 ^ 21
      | JNum (Num x) \<Rightarrow> False
      | _ \<Rightarrow> True)"

definition no_currency :: "jsval \<Rightarrow> bool" where
  "no_currency v =
     (case v of
        JStr (Lit s) \<Rightarrow> CHR ''$'' \<notin> set s \<and> CHR '','' \<notin> set s
      | _ \<Rightarrow> True)"

text \<open>
  The hosts of a dataset: the key of a listing's host, the keys in the order in which they
  are first seen, the order in which an object enumerates them, the number of listings of a
  host, the name on a host's first listing, and the order of the hosts in the ranking (most
  listings first, hosts with equally many in the order of enumeration).
\<close>

definition host_key :: "listing \<Rightarrow> pkey" where
  "host_key l = ToPropertyKey (get l ''host_id'')"

definition first_seen :: "'a list \<Rightarrow> 'a list" where
  "first_seen xs = rev (remdups (rev xs))"

definition enumerate_keys :: "pkey list \<Rightarrow> pkey list" where
  "enumerate_keys ks = sort_key index_of (filter is_index ks) @ filter (\<lambda>k. \<not> is_index k) ks"

definition listing_count :: "listing list \<Rightarrow> pkey \<Rightarrow> nat" where
  "listing_count ds k = count_list (map host_key ds) k"

definition first_name :: "listing list \<Rightarrow> pkey \<Rightarrow> jsval" where
  "first_name ds k =
     (case find (\<lambda>l. host_key l = k) ds of Some l \<Rightarrow> get l ''host_name'' | None \<Rightarrow> JUndefined)"

definition host_order :: "listing list \<Rightarrow> pkey list" where
  "host_order ds =
     sort_key (\<lambda>k. - int (listing_count ds k)) (enumerate_keys (first_seen (map host_key ds)))"

definition last_name :: "listing list \<Rightarrow> pkey \<Rightarrow> jsval" where
  "last_name ds k = first_name (rev ds) k"

definition renamed_host :: "listing list" where
  \<comment> \<open>One host id under two names.\<close>
  "renamed_host = [[(''host_id'', JNum (Num (Fin 7))), (''host_name'', JStr (Lit ''Ann''))],
                   [(''host_id'', JNum (Num (Fin 7))), (''host_name'', JStr (Lit ''Bob''))]]"

definition inherited_id :: "listing list" where
  \<comment> \<open>One listing whose host id names a property that every object inherits.\<close>
  "inherited_id = [[(''host_id'', JStr (Lit ''constructor'')), (''host_name'', JStr (Lit ''X''))]]"

definition stored :: store where
  \<comment> \<open>A store whose array 0 holds the three example listings.\<close>
  "stored = \<lparr> arr = (\<lambda>a. [])(0 := [listing_a1, listing_a2, listing_b]), fresh = 1 \<rparr>"

section \<open>Properties\<close>

subsection \<open>Numbers\<close>

lemma truthy_Num_iff: "truthy (Num x) \<longleftrightarrow> x \<noteq> Fin 0"
  by (cases x) simp_all

lemma or_zero_not_NaN: "or_zero x \<noteq> NaN"
  by (cases x) (simp_all add: or_zero_def)

lemma getNumber_not_NaN: "getNumber item prop \<noteq> NaN"
  by (simp add: getNumber_def Let_def or_zero_not_NaN)

lemmas parse_defs =
  parseFloat_text_def parseInt_text_def read_sign_def read_exponent_def is_space_def
  is_digit_def is_hex_def nat_of_digits_def digit_val_def hex_val_def pow10_def

lemmas extract_defs = getNumber_def get_def or_zero_def parse_defs

subsection \<open>The filter\<close>




subsection \<open>The numeric extractor\<close>

text \<open>
  C2, as the claim states it, fails: the extractor does not always return a finite number.
  A price that is the number \<open>Infinity\<close> is written as the text \<open>Infinity\<close>, which
  \<open>parseFloat\<close> reads back as \<open>Infinity\<close>; that is truthy, so \<open>|| 0\<close> lets it through.
\<close>

theorem getNumber_infinite_counterexample:
  "\<not> is_finite (getNumber [(''price'', JNum (Num PInf))] ''price'')"
  by (simp add: extract_defs)

text \<open>
  C2, amended: for every record and field name the extractor never fails and returns a
  number that is not NaN (finite, or an infinity read from the field); text is stripped of
  \<open>$\<close> and \<open>,\<close> before it is parsed as a floating-point number; the result is 0 when the
  field is absent and when parsing fails; and the three examples of the claim hold.
\<close>

theorem getNumber_never_NaN:
  "getNumber item prop \<noteq> NaN
   \<and> (get item prop = JUndefined \<or> get item prop = JNull \<longrightarrow> getNumber item prop = Num (Fin 0))
   \<and> (get item prop = JStr (Lit s) \<longrightarrow>
        getNumber item prop
          = or_zero (parseFloat_text (filter (\<lambda>c. c \<noteq> CHR ''$'' \<and> c \<noteq> CHR '','') s)))
   \<and> (parseFloat (strip_currency (ToString (get item prop))) = NaN \<longrightarrow>
        getNumber item prop = Num (Fin 0))
   \<and> getNumber [(''price'', JStr (Lit ''$1,234.50''))] ''price'' = Num (Fin (2469 / 2))
   \<and> getNumber [(''price'', JStr (Lit ''$100''))] ''price'' = Num (Fin 100)
   \<and> getNumber [] ''price'' = Num (Fin 0)"
proof -
  have absent: "get item prop = JUndefined \<or> get item prop = JNull \<Longrightarrow> getNumber item prop = Num (Fin 0)"
    by (auto simp: getNumber_def or_zero_def parse_defs)
  have zero: "or_zero (parseFloat (Lit ''0'')) = Num (Fin 0)"
    by (simp add: or_zero_def parse_defs)
  have empty: "or_zero (parseFloat_text []) = Num (Fin 0)"
    by (simp add: or_zero_def parse_defs)
  have literal: "getNumber item prop
      = or_zero (parseFloat_text (filter (\<lambda>c. c \<noteq> CHR ''$'' \<and> c \<noteq> CHR '','') s))"
    if "get item prop = JStr (Lit s)"
    using that zero empty by (simp add: getNumber_def Let_def)
  have fails: "getNumber item prop = Num (Fin 0)"
    if "parseFloat (strip_currency (ToString (get item prop))) = NaN"
  proof (cases "get item prop = JUndefined \<or> get item prop = JNull")
    case True
    then show ?thesis by (rule absent)
  next
    case False
    then show ?thesis
      using that zero
      by (cases "get item prop") (auto simp: getNumber_def Let_def or_zero_def)
  qed
  have e1: "getNumber [(''price'', JStr (Lit ''$1,234.50''))] ''price'' = Num (Fin (2469 / 2))"
    by (simp add: extract_defs)
  have e2: "getNumber [(''price'', JStr (Lit ''$100''))] ''price'' = Num (Fin 100)"
    by (simp add: extract_defs)
  have e3: "getNumber [] ''price'' = Num (Fin 0)"
    by (simp add: extract_defs)
  show ?thesis
    using absent literal fails e1 e2 e3 getNumber_not_NaN by blast
qed

theorem getNumber_never_NaN_witness:
  "get [(''price'', JStr (Lit ''$1,234.50''))] ''price'' = JStr (Lit ''$1,234.50'')
   \<and> getNumber [(''price'', JStr (Lit ''$1,234.50''))] ''price''
       = or_zero (parseFloat_text ''1234.50'')
   \<and> get [(''price'', JNull)] ''price'' = JNull
   \<and> getNumber [(''price'', JNull)] ''price'' = Num (Fin 0)
   \<and> parseFloat (strip_currency (ToString (get [(''price'', JBool True)] ''price''))) = NaN
   \<and> getNumber [(''price'', JBool True)] ''price'' = Num (Fin 0)"
  using getNumber_never_NaN [of "[(''price'', JStr (Lit ''$1,234.50''))]" "''price''" "''$1,234.50''"]
    getNumber_never_NaN [of "[(''price'', JNull)]" "''price''" "[]"]
    getNumber_never_NaN [of "[(''price'', JBool True)]" "''price''" "[]"]
  by (simp add: get_def parse_defs)

subsection \<open>The statistics\<close>

lemma js_add_assoc: "js_add (js_add a b) c = js_add a (js_add b c)"
proof (cases a)
  case NaN
  then show ?thesis by simp
next
  case (Num x)
  show ?thesis
  proof (cases b)
    case NaN
    then show ?thesis using Num by (cases x) simp_all
  next
    case b: (Num y)
    show ?thesis
    proof (cases c)
      case NaN
      then show ?thesis using Num b by (cases x; cases y) simp_all
    next
      case c: (Num z)
      then show ?thesis using Num b by (cases x; cases y; cases z) simp_all
    qed
  qed
qed

lemma js_add_zero_left: "js_add (Num (Fin 0)) a = a"
proof (cases a)
  case NaN
  then show ?thesis by simp
next
  case (Num x)
  then show ?thesis by (cases x) simp_all
qed

lemma foldl_js_add: "foldl (\<lambda>s item. js_add s (f item)) z xs = js_add z (sum_numbers (map f xs))"
proof (induction xs arbitrary: z)
  case Nil
  show ?case by (cases z rule: js_neg.cases) simp_all
next
  case (Cons x xs)
  then show ?case by (simp add: js_add_assoc)
qed

lemma reduce_sum: "foldl (\<lambda>s item. js_add s (f item)) (Num (Fin 0)) xs = sum_numbers (map f xs)"
  by (simp add: foldl_js_add js_add_zero_left)

lemma xle_le: "xle a b \<longleftrightarrow> a \<le> b"
  by (simp add: less_eq_xnum_def)

lemma js_gt_less: "js_gt (Num x) (Num y) \<longleftrightarrow> y < x"
  by (simp add: xle_le not_le)

lemma valid_host_eq:
  "(case get l ''host_id'' of JNum n \<Rightarrow> js_gt n (Num (Fin 0)) | _ \<Rightarrow> False)
     = (case get l ''host_id'' of JNum (Num x) \<Rightarrow> Fin 0 < x | _ \<Rightarrow> False)"
  by (simp add: xle_le not_le split: jsval.splits jsnum.splits)

lemma js_div_by_zero:
  "js_div p (Num (Fin 0)) =
     (if p = NaN \<or> p = Num (Fin 0) then NaN else if js_gt p (Num (Fin 0)) then Num PInf else Num NInf)"
  by (cases p rule: js_neg.cases) auto

text \<open>
  C3, as the claim states it, fails: with no bedrooms in total the average price per room is
  not always NaN. One studio at $100 gives \<open>100 / 0\<close>, which is \<open>Infinity\<close>.
\<close>

theorem stats_zero_rooms_counterexample:
  "getNumber studio ''bedrooms'' = Num (Fin 0)
   \<and> avgPricePerRoom (calculateStats [studio]) = Num PInf"
  by (simp add: calculateStats_def studio_def extract_defs)

text \<open>
  C3, amended: \<open>calculateStats\<close> returns count = the number of listings, averagePrice = the
  sum of the extracted prices divided by the count (NaN when the count is 0), avgPricePerRoom
  = the sum of the extracted prices divided by the sum of the extracted bedrooms, with no
  room default (when the bedrooms sum to 0 it is NaN if the prices sum to 0 or to NaN, and
  otherwise \<open>Infinity\<close> or \<open>-Infinity\<close> with the sign of the price sum), and validListings =
  the number of listings whose host id is typed as a number and is greater than zero.
\<close>

theorem calculateStats_values:
  "count (calculateStats dataset) = length dataset
   \<and> averagePrice (calculateStats dataset)
       = js_div (sum_numbers (map (\<lambda>l. getNumber l ''price'') dataset))
           (Num (Fin (of_nat (length dataset))))
   \<and> (dataset = [] \<longrightarrow> averagePrice (calculateStats dataset) = NaN)
   \<and> avgPricePerRoom (calculateStats dataset)
       = js_div (sum_numbers (map (\<lambda>l. getNumber l ''price'') dataset))
           (sum_numbers (map (\<lambda>l. getNumber l ''bedrooms'') dataset))
   \<and> (sum_numbers (map (\<lambda>l. getNumber l ''bedrooms'') dataset) = Num (Fin 0) \<longrightarrow>
        avgPricePerRoom (calculateStats dataset)
          = (let total = sum_numbers (map (\<lambda>l. getNumber l ''price'') dataset)
             in if total = NaN \<or> total = Num (Fin 0) then NaN
                else if js_gt total (Num (Fin 0)) then Num PInf else Num NInf))
   \<and> validListings (calculateStats dataset)
       = length (filter (\<lambda>l. case get l ''host_id'' of JNum (Num x) \<Rightarrow> Fin 0 < x | _ \<Rightarrow> False)
                   dataset)"
  by (simp add: calculateStats_def Let_def reduce_sum valid_host_eq js_div_by_zero)

theorem calculateStats_values_witness:
  "averagePrice (calculateStats []) = NaN
   \<and> sum_numbers (map (\<lambda>l. getNumber l ''bedrooms'') [studio]) = Num (Fin 0)
   \<and> avgPricePerRoom (calculateStats [studio]) = Num PInf"
proof -
  have rooms: "sum_numbers (map (\<lambda>l. getNumber l ''bedrooms'') [studio]) = Num (Fin 0)"
    by (simp add: studio_def extract_defs)
  have price: "sum_numbers (map (\<lambda>l. getNumber l ''price'') [studio]) = Num (Fin 100)"
    by (simp add: studio_def extract_defs)
  from calculateStats_values [of "[studio]"] rooms
  have "avgPricePerRoom (calculateStats [studio])
          = (let total = sum_numbers (map (\<lambda>l. getNumber l ''price'') [studio])
             in if total = NaN \<or> total = Num (Fin 0) then NaN
                else if js_gt total (Num (Fin 0)) then Num PInf else Num NInf)"
    by blast
  then have "avgPricePerRoom (calculateStats [studio]) = Num PInf"
    unfolding price by simp
  moreover from calculateStats_values [of "[]"] have "averagePrice (calculateStats []) = NaN"
    by blast
  ultimately show ?thesis
    using rooms by blast
qed

subsection \<open>Ordering\<close>

lemma sort_insert_insort_key:
  assumes "\<And>x y. js_gt (cmp x y) (Num (Fin 0)) \<longleftrightarrow> f y < f x"
  shows "sort_insert cmp x ys = insort_key f x ys"
  by (induction ys) (auto simp: assms)

lemma js_sort_sort_key:
  assumes "\<And>x y. js_gt (cmp x y) (Num (Fin 0)) \<longleftrightarrow> f y < f x"
  shows "js_sort cmp xs = sort_key f xs"
proof -
  have "sort_insert cmp = insort_key f"
    using sort_insert_insort_key [of cmp f, OF assms] by (intro ext)
  then show ?thesis
    by (simp add: js_sort_def sort_key_def)
qed

lemma js_sub_positive: "js_gt (js_sub (Num a) (Num b)) (Num (Fin 0)) \<longleftrightarrow> b < a"
  by (cases a; cases b) (auto simp: js_sub_def less_xnum_def)

lemma Num_bound: "x \<noteq> NaN \<Longrightarrow> Num (bound x) = x"
  by (cases x) (simp_all add: bound_def)

lemma comparator_positive:
  "js_gt (createComparator (\<lambda>item. getNumber item p) x y) (Num (Fin 0))
     \<longleftrightarrow> bound (getNumber y p) < bound (getNumber x p)"
proof -
  have "js_gt (js_sub (Num (bound (getNumber x p))) (Num (bound (getNumber y p)))) (Num (Fin 0))
          \<longleftrightarrow> bound (getNumber y p) < bound (getNumber x p)"
    by (rule js_sub_positive)
  then show ?thesis
    by (simp add: createComparator_def Num_bound getNumber_not_NaN)
qed

lemma order_sort_key:
  "js_sort (createComparator (\<lambda>item. getNumber item p)) xs
     = sort_key (\<lambda>item. bound (getNumber item p)) xs"
  by (rule js_sort_sort_key) (rule comparator_positive)

lemma sort_key_twice: "sort_key f (sort_key f xs) = sort_key f xs"
  by (rule sort_key_id_if_sorted) simp

lemma handler_order_arr:
  "handler_order st d p = (st', d') \<Longrightarrow>
     d' = fresh st \<and> arr st' d' = sort_key (\<lambda>item. bound (getNumber item p)) (arr st d)
     \<and> fresh st' = Suc (fresh st) \<and> (\<forall>a. a \<noteq> fresh st \<longrightarrow> arr st' a = arr st a)"
  by (auto simp: handler_order_def alloc_def sort_in_place_def Let_def order_sort_key)

text \<open>
  C9: \<open>order\<close> is idempotent: ordering the dataset that \<open>order\<close> returned, by the same
  field, gives the same sequence of listings again.
\<close>

theorem order_idempotent:
  "(case handler_order st d f of
      (st1, d1) \<Rightarrow>
        (case handler_order st1 d1 f of
           (st2, d2) \<Rightarrow> arr st2 d2 = arr st1 d1))
   \<and> js_sort (createComparator (\<lambda>item. getNumber item f))
         (js_sort (createComparator (\<lambda>item. getNumber item f)) dataset)
       = js_sort (createComparator (\<lambda>item. getNumber item f)) dataset"
proof -
  obtain st1 d1 where o1: "handler_order st d f = (st1, d1)"
    by (cases "handler_order st d f")
  obtain st2 d2 where o2: "handler_order st1 d1 f = (st2, d2)"
    by (cases "handler_order st1 d1 f")
  have a1: "arr st1 d1 = sort_key (\<lambda>item. bound (getNumber item f)) (arr st d)"
    using handler_order_arr [OF o1] by blast
  have a2: "arr st2 d2 = sort_key (\<lambda>item. bound (getNumber item f)) (arr st1 d1)"
    using handler_order_arr [OF o2] by blast
  have "arr st2 d2 = arr st1 d1"
    unfolding a2 unfolding a1 by (rule sort_key_twice)
  then show ?thesis
    by (simp add: o1 o2 order_sort_key sort_key_twice)
qed

theorem order_idempotent_witness:
  "js_sort (createComparator (\<lambda>item. getNumber item ''price''))
     (js_sort (createComparator (\<lambda>item. getNumber item ''price'')) [listing_a1, listing_b])
   = js_sort (createComparator (\<lambda>item. getNumber item ''price'')) [listing_a1, listing_b]"
  using order_idempotent [where st = empty_store and d = 0 and f = "''price''"
      and dataset = "[listing_a1, listing_b]"]
  by blast

subsection \<open>Datasets as arrays\<close>

lemmas mut_extract_defs = price_of_def bedrooms_of_def score_of_def get_def or_zero_def parse_defs

lemma working_reachable:
  "filter_mut no_filter (readCsv [listing_a1, listing_b] (AirBnBDataHandler empty_store)) = Inr working"
  by (simp add: filter_mut_def readCsv_def AirBnBDataHandler_def alloc_def empty_store_def
      working_def no_filter_def Let_def numeral_2_eq_2 numeral_3_eq_3)

lemma emptied_reachable:
  "filter_mut price_above_1000 (readCsv [listing_a1, listing_b] (AirBnBDataHandler empty_store))
     = Inr emptied"
  by (simp add: filter_mut_def readCsv_def AirBnBDataHandler_def alloc_def empty_store_def
      emptied_def price_above_1000_def Let_def numeral_2_eq_2 numeral_3_eq_3 listing_a1_def listing_b_def mut_extract_defs js_ge_def)

text \<open>
  C8, as the claim states it, fails for the mutating handler: its \<open>order\<close> sorts the array
  \<open>filteredListings\<close> where it is. The array held the $200 listing before the $50 listing
  when \<open>order\<close> was called, and holds them the other way round afterwards.
\<close>

theorem order_mut_in_place_counterexample:
  "arr (heap working) 2 = [listing_a1, listing_b]
   \<and> array_at 2 (order_mut ''price'' working) = Some [listing_b, listing_a1]"
  by (simp add: working_def order_mut_def array_at_def sort_in_place_def js_sort_def Let_def
      getNumericValue_def js_sub_def listing_a1_def listing_b_def or_zero_def get_def parse_defs)

lemma getNumericValue_getNumber: "getNumericValue p item = getNumber item p"
  by (simp add: getNumericValue_def getNumber_def)

lemma order_mut_comparator:
  "(\<lambda>a b. (let valueB = getNumericValue p b; valueA = getNumericValue p a in js_sub valueA valueB))
     = createComparator (\<lambda>item. getNumber item p)"
  by (simp add: createComparator_def getNumericValue_getNumber Let_def)

lemma handler_filter_arr:
  "handler_filter st d fs = (st', d') \<Longrightarrow>
     d' = fresh st \<and> arr st' d' = filterListings (arr st d) fs
     \<and> (\<forall>a. a \<noteq> fresh st \<longrightarrow> arr st' a = arr st a)"
  by (auto simp: handler_filter_def alloc_def)

lemma filter_mut_arr:
  "data h = Some d \<Longrightarrow>
     \<exists>h'. filter_mut fs h = Inr h' \<and> filteredListings h' = fresh (heap h) \<and> data h' = Some d
          \<and> (\<forall>a. a \<noteq> fresh (heap h) \<longrightarrow> arr (heap h') a = arr (heap h) a)"
  by (simp add: filter_mut_def alloc_def Let_def)

lemma order_mut_arr:
  "arr (heap h) (filteredListings h) \<noteq> [] \<Longrightarrow>
     \<exists>h'. order_mut f h = Inr h' \<and> filteredListings h' = filteredListings h
          \<and> arr (heap h') (filteredListings h)
              = js_sort (createComparator (\<lambda>item. getNumber item f)) (arr (heap h) (filteredListings h))"
  using order_mut_comparator [of f]
  by (simp add: order_mut_def sort_in_place_def Let_def)

text \<open>
  C8, amended: the pure handler's \<open>filter\<close> and \<open>order\<close> and the mutating handler's \<open>filter\<close>
  put their result in a new array and leave every array that existed, the input among them,
  with the same listings in the same order; the mutating handler's \<open>order\<close> sorts its
  working array in place.
\<close>

theorem stages_and_their_input:
  "(d < fresh st \<longrightarrow>
      (case handler_filter st d fs of
         (st', d') \<Rightarrow> d' \<noteq> d \<and> arr st' d' = filterListings (arr st d) fs
                      \<and> (\<forall>a < fresh st. arr st' a = arr st a))
      \<and> (case handler_order st d f of
           (st', d') \<Rightarrow> d' \<noteq> d \<and> (\<forall>a < fresh st. arr st' a = arr st a)))
   \<and> (data h = Some d \<longrightarrow>
        (\<exists>h'. filter_mut fs h = Inr h' \<and> filteredListings h' = fresh (heap h)
              \<and> (\<forall>a < fresh (heap h). arr (heap h') a = arr (heap h) a)))
   \<and> (arr (heap h) (filteredListings h) \<noteq> [] \<longrightarrow>
        (\<exists>h'. order_mut f h = Inr h' \<and> filteredListings h' = filteredListings h
              \<and> arr (heap h') (filteredListings h)
                  = js_sort (createComparator (\<lambda>item. getNumber item f))
                      (arr (heap h) (filteredListings h))))"
proof -
  obtain st1 d1 where f1: "handler_filter st d fs = (st1, d1)"
    by (cases "handler_filter st d fs")
  obtain st2 d2 where o2: "handler_order st d f = (st2, d2)"
    by (cases "handler_order st d f")
  have pure: "d1 \<noteq> d \<and> arr st1 d1 = filterListings (arr st d) fs
        \<and> (\<forall>a < fresh st. arr st1 a = arr st a)
        \<and> d2 \<noteq> d \<and> (\<forall>a < fresh st. arr st2 a = arr st a)" if "d < fresh st"
    using that handler_filter_arr [OF f1] handler_order_arr [OF o2] by auto
  have mut: "\<exists>h'. filter_mut fs h = Inr h' \<and> filteredListings h' = fresh (heap h)
              \<and> (\<forall>a < fresh (heap h). arr (heap h') a = arr (heap h) a)" if "data h = Some d"
    using filter_mut_arr [OF that, of fs] by auto
  show ?thesis
    using pure mut order_mut_arr [of h f] by (simp add: f1 o2)
qed

theorem stages_and_their_input_witness:
  "(1::nat) < fresh (heap working)
   \<and> arr (fst (handler_filter (heap working) 1 no_filter)) 1 = arr (heap working) 1
   \<and> arr (fst (handler_order (heap working) 1 ''price'')) 1 = arr (heap working) 1
   \<and> data working = Some 1
   \<and> array_at 1 (filter_mut no_filter working) = Some (arr (heap working) 1)
   \<and> arr (heap working) (filteredListings working) \<noteq> []
   \<and> order_mut ''price'' working \<noteq> Inl TypeError"
proof -
  note t = stages_and_their_input [of 1 "heap working" no_filter "''price''" working]
  have lt: "(1::nat) < fresh (heap working)" and dt: "data working = Some 1"
    and ne: "arr (heap working) (filteredListings working) \<noteq> []"
    by (simp_all add: working_def)
  have "arr (fst (handler_filter (heap working) 1 no_filter)) 1 = arr (heap working) 1"
    using t lt by (auto split: prod.splits)
  moreover have "arr (fst (handler_order (heap working) 1 ''price'')) 1 = arr (heap working) 1"
    using t lt by (auto split: prod.splits)
  moreover have "array_at 1 (filter_mut no_filter working) = Some (arr (heap working) 1)"
    using t dt lt by (auto simp: array_at_def)
  moreover have "order_mut ''price'' working \<noteq> Inl TypeError"
    using t ne by auto
  ultimately show ?thesis
    using lt dt ne by blast
qed

subsection \<open>The empty dataset\<close>

lemmas mut_stage_defs = computeStats_mut_def rankHosts_mut_def sortedHosts_def slice_def
  js_sort_def own_entries_def

text \<open>
  C7: on the empty dataset the statistics are NaN averages, the ranking is empty and the pure
  handler's \<open>order\<close> returns an empty dataset; but the mutating handler's \<open>order\<close> fails
  there, because it reads \<open>filteredListings[0][property]\<close> for its first message.
\<close>

theorem empty_dataset_stages:
  "calculateStats [] = \<lparr> count = 0, averagePrice = NaN, avgPricePerRoom = NaN, validListings = 0 \<rparr>
   \<and> rankHosts [] = []
   \<and> arr (fst (handler_order (heap emptied) 2 ''price''))
        (snd (handler_order (heap emptied) 2 ''price'')) = []
   \<and> snd (computeStats_mut emptied) = (0, NaN, NaN)
   \<and> rankHosts_mut emptied = []
   \<and> order_mut ''price'' emptied = Inl TypeError"
  by (simp add: calculateStats_def rankHosts_def mut_stage_defs emptied_def order_mut_def
      handler_order_def alloc_def sort_in_place_def Let_def)

subsection \<open>The price per room\<close>

lemma digit_char: "d < 10 \<Longrightarrow> is_digit (char_of (48 + d)) \<and> digit_val (char_of (48 + d)) = d"
  by (simp add: is_digit_def digit_val_def)

lemma dec_digits_all: "list_all is_digit (dec_digits n)"
proof (induction n rule: dec_digits.induct)
  case (1 n)
  show ?case
  proof (cases "n < 10")
    case True
    then show ?thesis by (subst dec_digits.simps) (simp add: digit_char)
  next
    case False
    then show ?thesis using 1 by (subst dec_digits.simps) (simp add: digit_char)
  qed
qed

lemma dec_digits_nonempty: "dec_digits n \<noteq> []"
  by (subst dec_digits.simps) simp

lemma nat_of_digits_snoc: "nat_of_digits (ds @ [c]) = 10 * nat_of_digits ds + digit_val c"
  by (simp add: nat_of_digits_def)

lemma nat_of_dec_digits: "nat_of_digits (dec_digits n) = n"
proof (induction n rule: dec_digits.induct)
  case (1 n)
  show ?case
  proof (cases "n < 10")
    case True
    then show ?thesis by (subst dec_digits.simps) (simp add: nat_of_digits_def digit_char)
  next
    case False
    then have "nat_of_digits (dec_digits (n div 10)) = n div 10"
      using 1 by simp
    then show ?thesis using False
      by (subst dec_digits.simps) (simp add: nat_of_digits_snoc digit_char)
  qed
qed

lemma nat_of_digits_zeros: "nat_of_digits (replicate k (CHR ''0'') @ ds) = nat_of_digits ds"
proof -
  have "foldl (\<lambda>n c. 10 * n + digit_val c) 0 (replicate k (CHR ''0'')) = 0"
    by (induction k) (simp_all add: digit_val_def)
  then show ?thesis by (simp add: nat_of_digits_def)
qed

lemma takeWhile_digits:
  "list_all is_digit xs \<Longrightarrow> \<not> is_digit c \<Longrightarrow> takeWhile is_digit (xs @ c # ys) = xs"
  by (induction xs) simp_all

lemma dropWhile_digits:
  "list_all is_digit xs \<Longrightarrow> \<not> is_digit c \<Longrightarrow> dropWhile is_digit (xs @ c # ys) = c # ys"
  by (induction xs) simp_all

lemma takeWhile_all: "list_all P xs \<Longrightarrow> takeWhile P xs = xs"
  by (induction xs) simp_all

lemma dropWhile_all: "list_all P xs \<Longrightarrow> dropWhile P xs = []"
  by (induction xs) simp_all

text \<open>Reading a text of the shape digits, point, two digits.\<close>

lemma parse_fixed_text:
  assumes ds: "list_all is_digit ip" "ip \<noteq> []" "list_all is_digit fp"
  shows "parseFloat_text (ip @ CHR ''.'' # fp)
           = Num (Fin (of_nat (nat_of_digits (ip @ fp)) * pow10 (- int (length fp))))"
proof -
  obtain c r where ip: "ip = c # r"
    using ds(2) by (cases ip) auto
  have c: "is_digit c"
    using ds(1) ip by simp
  then have c_plain: "\<not> is_space c" "c \<noteq> CHR ''-''" "c \<noteq> CHR ''+''" "c \<noteq> CHR ''I''"
    by (auto simp: is_digit_def is_space_def)
  have dot: "\<not> is_digit (CHR ''.'')"
    by (simp add: is_digit_def)
  have sign: "read_sign (dropWhile is_space (ip @ CHR ''.'' # fp)) = (False, ip @ CHR ''.'' # fp)"
    using c_plain by (simp add: ip read_sign_def)
  have inf: "take 8 (ip @ CHR ''.'' # fp) \<noteq> ''Infinity''"
    using c_plain by (simp add: ip)
  show ?thesis
    unfolding parseFloat_text_def sign
    using inf ds
    by (simp add: takeWhile_digits dropWhile_digits dot takeWhile_all dropWhile_all
        read_exponent_def Let_def)
qed


lemma parse_negative_fixed_text:
  assumes ds: "list_all is_digit ip" "ip \<noteq> []" "list_all is_digit fp"
  shows "parseFloat_text (CHR ''-'' # ip @ CHR ''.'' # fp)
           = Num (Fin (- (of_nat (nat_of_digits (ip @ fp)) * pow10 (- int (length fp)))))"
proof -
  obtain c r where ip: "ip = c # r"
    using ds(2) by (cases ip) auto
  have c: "is_digit c"
    using ds(1) ip by simp
  then have c_plain: "c \<noteq> CHR ''I''"
    by (auto simp: is_digit_def)
  have dot: "\<not> is_digit (CHR ''.'')"
    by (simp add: is_digit_def)
  have sign: "read_sign (dropWhile is_space (CHR ''-'' # ip @ CHR ''.'' # fp))
                = (True, ip @ CHR ''.'' # fp)"
    by (simp add: read_sign_def is_space_def)
  have inf: "take 8 (ip @ CHR ''.'' # fp) \<noteq> ''Infinity''"
    using c_plain by (simp add: ip)
  show ?thesis
    unfolding parseFloat_text_def sign
    using inf ds
    by (simp add: takeWhile_digits dropWhile_digits dot takeWhile_all dropWhile_all
        read_exponent_def Let_def)
qed

lemma padded_digits:
  fixes n :: nat
  defines "m \<equiv> replicate (3 - length (dec_digits n)) (CHR ''0'') @ dec_digits n"
  shows "list_all is_digit (take (length m - 2) m)"
    and "take (length m - 2) m \<noteq> []"
    and "list_all is_digit (drop (length m - 2) m)"
    and "length (drop (length m - 2) m) = 2"
    and "nat_of_digits (take (length m - 2) m @ drop (length m - 2) m) = n"
proof -
  have zero: "is_digit (CHR ''0'')"
    by (simp add: is_digit_def)
  have all: "list_all is_digit m"
    using dec_digits_all [of n] zero by (auto simp: m_def list_all_iff)
  have len: "3 \<le> length m"
    by (simp add: m_def)
  show "list_all is_digit (take (length m - 2) m)"
    using all by (auto simp: list_all_iff dest: in_set_takeD)
  show "take (length m - 2) m \<noteq> []"
    using len by auto
  show "list_all is_digit (drop (length m - 2) m)"
    using all by (auto simp: list_all_iff dest: in_set_dropD)
  show "length (drop (length m - 2) m) = 2"
    using len by simp
  have "nat_of_digits m = n"
    by (simp add: m_def nat_of_digits_zeros nat_of_dec_digits)
  then show "nat_of_digits (take (length m - 2) m @ drop (length m - 2) m) = n"
    by (simp only: append_take_drop_id)
qed

lemma pow10_minus_2: "pow10 (- 2) = 1 / 100"
  by (simp add: pow10_def)

lemma toFixed2_reads_back:
  assumes "\<bar>q\<bar> < 10 ^ 21"
  shows "parseFloat (toFixed2 (Num (Fin q))) = Num (Fin (round_half_away q))"
proof -
  define n where "n = fixed_hundredths \<bar>q\<bar>"
  define m where "m = replicate (3 - length (dec_digits n)) (CHR ''0'') @ dec_digits n"
  note p = padded_digits [of n, folded m_def]
  have n: "of_nat n = (of_int \<lfloor>\<bar>q\<bar> * 100 + 1 / 2\<rfloor> :: rat)"
  proof -
    have "0 \<le> \<lfloor>\<bar>q\<bar> * 100 + 1 / 2\<rfloor>"
      by simp
    then show ?thesis
      by (simp add: n_def fixed_hundredths_def)
  qed
  show ?thesis
  proof (cases "q < 0")
    case True
    have "toFixed2 (Num (Fin q))
            = Lit (CHR ''-'' # take (length m - 2) m @ CHR ''.'' # drop (length m - 2) m)"
      using assms True by (simp add: toFixed2_def Let_def n_def m_def)
    then have "parseFloat (toFixed2 (Num (Fin q))) = Num (Fin (- (of_nat n * pow10 (- 2))))"
      using parse_negative_fixed_text [OF p(1) p(2) p(3)] p(4) p(5) by simp
    then show ?thesis
      using True by (simp add: n pow10_minus_2 round_half_away_def abs_if)
  next
    case False
    have "toFixed2 (Num (Fin q))
            = Lit (take (length m - 2) m @ CHR ''.'' # drop (length m - 2) m)"
      using assms False by (simp add: toFixed2_def Let_def n_def m_def)
    then have "parseFloat (toFixed2 (Num (Fin q))) = Num (Fin (of_nat n * pow10 (- 2)))"
      using parse_fixed_text [OF p(1) p(2) p(3)] p(4) p(5) by simp
    then show ?thesis
      using False by (simp add: n pow10_minus_2 round_half_away_def abs_if)
  qed
qed

lemma nearest_hundredth:
  fixes x :: rat
  defines "z \<equiv> of_int \<lfloor>x * 100 + 1 / 2\<rfloor>"
  shows "\<bar>z / 100 - x\<bar> \<le> 1 / 200" and "\<bar>z / 100 - x\<bar> = 1 / 200 \<Longrightarrow> x < z / 100"
proof -
  have "z \<le> x * 100 + 1 / 2" and "x * 100 + 1 / 2 < z + 1"
    unfolding z_def by linarith+
  then show "\<bar>z / 100 - x\<bar> \<le> 1 / 200" and "\<bar>z / 100 - x\<bar> = 1 / 200 \<Longrightarrow> x < z / 100"
    by linarith+
qed

lemma round_half_away_near: "\<bar>round_half_away q - q\<bar> \<le> 1 / 200"
proof (cases "q < 0")
  case True
  define z :: rat where "z = of_int \<lfloor>(- q) * 100 + 1 / 2\<rfloor> / 100"
  have r: "round_half_away q = - z"
    using True by (simp add: round_half_away_def z_def)
  have "\<bar>z - (- q)\<bar> \<le> 1 / 200"
    unfolding z_def by (rule nearest_hundredth(1))
  then show ?thesis
    unfolding r by linarith
next
  case False
  then show ?thesis
    using nearest_hundredth(1) [of q] by (simp add: round_half_away_def)
qed

lemma round_half_away_tie:
  assumes "\<bar>round_half_away q - q\<bar> = 1 / 200"
  shows "\<bar>q\<bar> < \<bar>round_half_away q\<bar>"
proof (cases "q < 0")
  case True
  define z :: rat where "z = of_int \<lfloor>(- q) * 100 + 1 / 2\<rfloor> / 100"
  have r: "round_half_away q = - z"
    using True by (simp add: round_half_away_def z_def)
  have "\<bar>z - (- q)\<bar> = 1 / 200"
    using assms unfolding r by linarith
  then have "- q < z"
    unfolding z_def by (rule nearest_hundredth(2))
  then show ?thesis
    using True unfolding r by linarith
next
  case False
  define z :: rat where "z = of_int \<lfloor>q * 100 + 1 / 2\<rfloor> / 100"
  have r: "round_half_away q = z"
    using False by (simp add: round_half_away_def z_def)
  have "\<bar>z - q\<bar> = 1 / 200"
    using assms unfolding r .
  then have "q < z"
    unfolding z_def by (rule nearest_hundredth(2))
  then show ?thesis
    using False unfolding r by linarith
qed

lemma parseInt_text_integer: "parseInt_text s = NaN \<or> (\<exists>n::int. parseInt_text s = Num (Fin (of_int n)))"
proof -
  have "\<exists>n::int. - (of_nat m :: rat) = of_int n" for m :: nat
    by (rule exI [of _ "- int m"]) simp
  moreover have "\<exists>n::int. (of_nat m :: rat) = of_int n" for m :: nat
    by (rule exI [of _ "int m"]) simp
  ultimately show ?thesis
    by (simp add: parseInt_text_def Let_def split: prod.splits)
qed

lemma parseInt_decimal_integer: "\<exists>n::int. parseInt_decimal q = Num (Fin (of_int n))"
proof -
  have neg: "\<exists>n::int. - (of_nat m :: rat) = of_int n" for m :: nat
    by (rule exI [of _ "- int m"]) simp
  have pos: "\<exists>n::int. (of_nat m :: rat) = of_int n" for m :: nat
    by (rule exI [of _ "int m"]) simp
  have negi: "\<exists>n::int. - (of_int m :: rat) = of_int n" for m :: int
    by (rule exI [of _ "- m"]) simp
  show ?thesis
    using neg pos negi by (simp add: parseInt_decimal_def)
qed

lemma bedrooms_of_integer: "\<exists>n::int. bedrooms_of row = Num (Fin (of_int n))"
proof -
  have zero: "\<exists>n::int. Num (Fin 0) = Num (Fin (of_int n))"
    by (rule exI [of _ 0]) simp
  have "parseInt t = NaN \<or> (\<exists>n::int. parseInt t = Num (Fin (of_int n)))" for t
    using parseInt_text_integer parseInt_decimal_integer by (cases t) auto
  from this [of "ToString (get row ''bedrooms'')"]
  have "\<exists>n::int. or_zero (parseInt (ToString (get row ''bedrooms''))) = Num (Fin (of_int n))"
    using zero by (auto simp: or_zero_def)
  then show ?thesis
    by (simp add: bedrooms_of_def)
qed

lemma or_one_max:
  assumes "js_le (Num (Fin 0)) (bedrooms_of row)"
  shows "or_one (bedrooms_of row) = Num (max (bound (bedrooms_of row)) (Fin 1))"
proof -
  obtain n :: int where n: "bedrooms_of row = Num (Fin (of_int n))"
    using bedrooms_of_integer by blast
  have "0 \<le> n"
    using assms by (simp add: n)
  then have "n = 0 \<or> 1 \<le> n"
    by linarith
  then show ?thesis
    by (auto simp: n or_one_def bound_def max_def less_eq_xnum_def)
qed

lemma dec_digits_small: "n < 10 \<Longrightarrow> dec_digits n = [char_of (48 + n)]"
  by (subst dec_digits.simps) simp

lemma dec_digits_big:
  "\<not> n < 10 \<Longrightarrow> dec_digits n = dec_digits (n div 10) @ [char_of (48 + n mod 10)]"
  by (subst dec_digits.simps) simp

lemma floor_rat_numeral: "\<lfloor>numeral a / numeral b :: rat\<rfloor> = numeral a div numeral b"
  using floor_divide_of_int_eq [of "numeral a" "numeral b", where ?'a = rat] by simp

lemma digit_chars:
  "char_of (48 :: nat) = CHR ''0''" "char_of (49 :: nat) = CHR ''1''"
  "char_of (50 :: nat) = CHR ''2''" "char_of (51 :: nat) = CHR ''3''"
  "char_of (52 :: nat) = CHR ''4''" "char_of (53 :: nat) = CHR ''5''"
  "char_of (54 :: nat) = CHR ''6''" "char_of (55 :: nat) = CHR ''7''"
  "char_of (56 :: nat) = CHR ''8''" "char_of (57 :: nat) = CHR ''9''"
  by (simp_all add: char_of_def bit_0)

lemmas toFixed2_defs = digit_chars
  toFixed2_def fixed_hundredths_def dec_digits_small dec_digits_big floor_rat_numeral Let_def

lemma get_update: "get (AList.update k v row) p = (if p = k then v else get row p)"
  by (simp add: get_def update_conv')

lemma computeStats_mut_rows:
  "computeStats_mut h = (h', printed) \<Longrightarrow>
     filteredListings h' = filteredListings h
     \<and> arr (heap h') (filteredListings h)
         = map (\<lambda>row. AList.update ''price_per_room'' (JStr (price_per_room row)) row)
             (arr (heap h) (filteredListings h))"
  by (auto simp: computeStats_mut_def Let_def)

lemma bit_length_small: "n < 2 \<Longrightarrow> bit_length n = 1"
  by (subst bit_length.simps) simp

lemma bit_length_big: "\<not> n < 2 \<Longrightarrow> bit_length n = Suc (bit_length (n div 2))"
  by (subst bit_length.simps) simp

lemma to_double_finite:
  assumes "q \<noteq> 0" and "binary_exponent \<bar>q\<bar> = e" and "- 1022 \<le> e"
    and "round_half_even (\<bar>q\<bar> / pow2 (e - 52)) = n"
    and "rat_of_int n * pow2 (e - 52) < pow2 1024"
  shows "to_double q
     = Num (Fin (if q < 0 then - (of_int n * pow2 (e - 52)) else of_int n * pow2 (e - 52)))"
proof -
  have m: "max (binary_exponent \<bar>q\<bar>) (- 1022) = e"
    using assms(2,3) by simp
  have below: "\<not> pow2 1024 \<le> rat_of_int n * pow2 (e - 52)"
    using assms(5) by simp
  show ?thesis
    unfolding to_double_def Let_def m assms(4) using assms(1) below by simp
qed

lemmas double_defs = binary_exponent_def round_half_even_def pow2_def
  bit_length_small bit_length_big floor_rat_numeral Let_def

lemma small_doubles:
  "to_double 1 = Num (Fin 1)" "to_double 2 = Num (Fin 2)" "to_double (- 2) = Num (Fin (- 2))"
  "to_double 100 = Num (Fin 100)" "to_double (- 50) = Num (Fin (- 50))"
  "to_double (1 / 4) = Num (Fin (1 / 4))" "to_double (1 / 8) = Num (Fin (1 / 8))"
  using to_double_finite [of 1 0 4503599627370496]
    to_double_finite [of 2 1 4503599627370496]
    to_double_finite [of "- 2" 1 4503599627370496]
    to_double_finite [of 100 6 7036874417766400]
    to_double_finite [of "- 50" 5 7036874417766400]
    to_double_finite [of "1 / 4" "- 2" 4503599627370496]
    to_double_finite [of "1 / 8" "- 3" 4503599627370496]
  by (simp_all add: double_defs)

lemma double_201:
  "to_double (201 / 100) = Num (Fin (1131529406376837 / 562949953421312))"
  "to_double (1131529406376837 / 1125899906842624)
     = Num (Fin (1131529406376837 / 1125899906842624))"
  using to_double_finite [of "201 / 100" 1 4526117625507348]
    to_double_finite [of "1131529406376837 / 1125899906842624" 0 4526117625507348]
  by (simp_all add: double_defs)

lemma odd_cents_quotient:
  "room_quotient odd_cents = Num (Fin (1131529406376837 / 1125899906842624))"
proof -
  have p: "price_of odd_cents = Num (Fin (201 / 100))"
    by (simp add: odd_cents_def mut_extract_defs)
  have b: "bedrooms_of odd_cents = Num (Fin 2)"
    by (simp add: odd_cents_def mut_extract_defs parseInt_decimal_def)
  show ?thesis
    by (simp add: room_quotient_def p b or_one_def small_doubles double_201)
qed

lemma odd_cents_text: "price_per_room odd_cents = Lit ''1.00''"
  by (simp add: price_per_room_def odd_cents_quotient toFixed2_defs)

lemma odd_cents_decimal:
  "js_div (price_of odd_cents) (or_one (bedrooms_of odd_cents)) = Num (Fin (201 / 200))
   \<and> toFixed2 (Num (Fin (201 / 200))) = Lit ''1.01''"
proof -
  have p: "price_of odd_cents = Num (Fin (201 / 100))"
    by (simp add: odd_cents_def mut_extract_defs)
  have b: "bedrooms_of odd_cents = Num (Fin 2)"
    by (simp add: odd_cents_def mut_extract_defs parseInt_decimal_def)
  show ?thesis
    by (simp add: p b or_one_def toFixed2_defs)
qed

lemma quarter_quotient: "room_quotient quarter = Num (Fin (1 / 8))"
proof -
  have p: "price_of quarter = Num (Fin (1 / 4))"
    by (simp add: quarter_def mut_extract_defs)
  have b: "bedrooms_of quarter = Num (Fin 2)"
    by (simp add: quarter_def mut_extract_defs parseInt_decimal_def)
  show ?thesis
    by (simp add: room_quotient_def p b or_one_def small_doubles)
qed

lemma priced_reachable:
  "filter_mut no_filter (readCsv [odd_cents, quarter] (AirBnBDataHandler empty_store)) = Inr priced"
  by (simp add: filter_mut_def readCsv_def AirBnBDataHandler_def alloc_def empty_store_def
      priced_def no_filter_def Let_def numeral_2_eq_2 numeral_3_eq_3)

text \<open>
  C4, as the claim states it, fails: the divisor is \<open>rooms || 1\<close>, not \<open>max(bedrooms, 1)\<close>.
  For a listing with price 100 and bedrooms -2 the field is \<open>-50.00\<close>, where the claim's
  formula gives \<open>100.00\<close>.
\<close>

theorem price_per_room_negative_counterexample:
  "price_per_room negative_rooms = Lit ''-50.00''
   \<and> toFixed2 (as_double (js_div (as_double (price_of negative_rooms))
       (as_double (Num (max (bound (bedrooms_of negative_rooms)) (Fin 1)))))) = Lit ''100.00''"
proof -
  have p: "price_of negative_rooms = Num (Fin 100)"
    by (simp add: negative_rooms_def mut_extract_defs)
  have b: "bedrooms_of negative_rooms = Num (Fin (- 2))"
    by (simp add: negative_rooms_def mut_extract_defs parseInt_decimal_def)
  have "room_quotient negative_rooms = Num (Fin (- 50))"
    by (simp add: room_quotient_def p b or_one_def small_doubles)
  then have "price_per_room negative_rooms = Lit ''-50.00''"
    by (simp add: price_per_room_def toFixed2_defs)
  moreover have "toFixed2 (as_double (js_div (as_double (price_of negative_rooms))
       (as_double (Num (max (bound (bedrooms_of negative_rooms)) (Fin 1)))))) = Lit ''100.00''"
    by (simp add: p b bound_def max_def less_eq_xnum_def small_doubles toFixed2_defs)
  ultimately show ?thesis
    by simp
qed

lemma studio_100_text: "price_per_room studio_100 = Lit ''100.00''"
proof -
  have p: "price_of studio_100 = Num (Fin 100)"
    by (simp add: studio_100_def mut_extract_defs)
  have b: "bedrooms_of studio_100 = Num (Fin 0)"
    by (simp add: studio_100_def mut_extract_defs parseInt_decimal_def)
  have "room_quotient studio_100 = Num (Fin 100)"
    by (simp add: room_quotient_def p b or_one_def small_doubles)
  then show ?thesis
    by (simp add: price_per_room_def toFixed2_defs)
qed

text \<open>
  C4, amended: the stats stage of the mutating handler gives every listing of its working
  dataset a \<open>price_per_room\<close> field, the text \<open>toFixed(2)\<close> writes for the double price / r,
  where r is the integer-parsed bedrooms when that is not zero and 1 otherwise (this is
  \<open>max(bedrooms, 1)\<close> whenever the integer-parsed bedrooms is not negative). What is rounded is
  the double that the division returns, not the decimal quotient: when that double is
  finite and below \<open>1e21\<close>, the text reads back as the double rounded to 2 decimal places, a
  tie of the double at the hundredths digit going away from zero. The price \<open>$2.01\<close> with 2
  bedrooms gets \<open>1.00\<close>: the double of 2.01 lies below 2.01, and so does its half below 1.005.
  A listing with bedrooms 0 and price 100 gets \<open>100.00\<close>.
\<close>

theorem price_per_room_annotation:
  "(case computeStats_mut h of
      (h', printed) \<Rightarrow>
        filteredListings h' = filteredListings h
        \<and> length (arr (heap h') (filteredListings h)) = length (arr (heap h) (filteredListings h))
        \<and> (\<forall>i < length (arr (heap h) (filteredListings h)).
             get (arr (heap h') (filteredListings h) ! i) ''price_per_room''
               = JStr (toFixed2 (as_double
                   (js_div (as_double (price_of (arr (heap h) (filteredListings h) ! i)))
                      (as_double (or_one (bedrooms_of (arr (heap h) (filteredListings h) ! i)))))))))
   \<and> (js_le (Num (Fin 0)) (bedrooms_of row) \<longrightarrow>
        or_one (bedrooms_of row) = Num (max (bound (bedrooms_of row)) (Fin 1)))
   \<and> (as_double (js_div (as_double (price_of row)) (as_double (or_one (bedrooms_of row))))
          = Num (Fin q) \<and> \<bar>q\<bar> < 10 ^ 21 \<longrightarrow>
        parseFloat (price_per_room row) = Num (Fin (round_half_away q)))
   \<and> \<bar>round_half_away q - q\<bar> \<le> 1 / 200
   \<and> (\<bar>round_half_away q - q\<bar> = 1 / 200 \<longrightarrow> \<bar>q\<bar> < \<bar>round_half_away q\<bar>)
   \<and> price_per_room studio_100 = Lit ''100.00''
   \<and> as_double (js_div (as_double (price_of odd_cents)) (as_double (or_one (bedrooms_of odd_cents))))
        = Num (Fin (1131529406376837 / 1125899906842624))
   \<and> price_per_room odd_cents = Lit ''1.00''"
proof -
  obtain h' printed where c: "computeStats_mut h = (h', printed)"
    by (cases "computeStats_mut h")
  have rows: "filteredListings h' = filteredListings h
        \<and> length (arr (heap h') (filteredListings h)) = length (arr (heap h) (filteredListings h))
        \<and> (\<forall>i < length (arr (heap h) (filteredListings h)).
             get (arr (heap h') (filteredListings h) ! i) ''price_per_room''
               = JStr (toFixed2 (as_double
                   (js_div (as_double (price_of (arr (heap h) (filteredListings h) ! i)))
                      (as_double (or_one (bedrooms_of (arr (heap h) (filteredListings h) ! i))))))))"
    using computeStats_mut_rows [OF c]
    by (simp add: get_update price_per_room_def room_quotient_def)
  have reads: "parseFloat (price_per_room row) = Num (Fin (round_half_away q))"
    if "as_double (js_div (as_double (price_of row)) (as_double (or_one (bedrooms_of row))))
          = Num (Fin q)" and "\<bar>q\<bar> < 10 ^ 21"
    using that toFixed2_reads_back [of q] by (simp add: price_per_room_def room_quotient_def)
  have odd: "as_double (js_div (as_double (price_of odd_cents))
                 (as_double (or_one (bedrooms_of odd_cents))))
        = Num (Fin (1131529406376837 / 1125899906842624))"
    using odd_cents_quotient by (simp add: room_quotient_def)
  show ?thesis
    using rows reads odd or_one_max [of row] round_half_away_near [of q]
      round_half_away_tie [of q] studio_100_text odd_cents_text
    by (simp add: c)
qed

theorem price_per_room_annotation_witness:
  "js_le (Num (Fin 0)) (bedrooms_of quarter)
   \<and> or_one (bedrooms_of quarter) = Num (Fin 2)
   \<and> as_double (js_div (as_double (price_of quarter)) (as_double (or_one (bedrooms_of quarter))))
        = Num (Fin (1 / 8))
   \<and> \<bar>1 / 8 :: rat\<bar> < 10 ^ 21
   \<and> parseFloat (price_per_room quarter) = Num (Fin (13 / 100))
   \<and> \<bar>round_half_away (1 / 8) - 1 / 8\<bar> = 1 / 200
   \<and> \<bar>1 / 8 :: rat\<bar> < \<bar>round_half_away (1 / 8)\<bar>
   \<and> 0 < length (arr (heap priced) (filteredListings priced))
   \<and> get (arr (heap (fst (computeStats_mut priced))) (filteredListings priced) ! 0)
         ''price_per_room'' = JStr (Lit ''1.00'')"
proof -
  note t = price_per_room_annotation [of priced quarter "1 / 8"]
  have rooms: "bedrooms_of quarter = Num (Fin 2)"
    by (simp add: quarter_def mut_extract_defs parseInt_decimal_def)
  have nonneg: "js_le (Num (Fin 0)) (bedrooms_of quarter)"
    by (simp add: rooms)
  have quot: "as_double (js_div (as_double (price_of quarter))
                (as_double (or_one (bedrooms_of quarter)))) = Num (Fin (1 / 8))"
    using quarter_quotient by (simp add: room_quotient_def)
  have small: "\<bar>1 / 8 :: rat\<bar> < 10 ^ 21"
    by simp
  have r: "round_half_away (1 / 8) = 13 / 100"
    by (simp add: round_half_away_def floor_rat_numeral)
  have tie: "\<bar>round_half_away (1 / 8) - 1 / 8\<bar> = 1 / 200"
    by (simp add: r)
  have len: "0 < length (arr (heap priced) (filteredListings priced))"
    by (simp add: priced_def)
  have row0: "arr (heap priced) (filteredListings priced) ! 0 = odd_cents"
    by (simp add: priced_def)
  have first: "toFixed2 (as_double
                 (js_div (as_double (price_of (arr (heap priced) (filteredListings priced) ! 0)))
                    (as_double (or_one (bedrooms_of (arr (heap priced) (filteredListings priced) ! 0))))))
               = Lit ''1.00''"
    unfolding row0 using odd_cents_text by (simp add: price_per_room_def room_quotient_def)
  from t nonneg have "or_one (bedrooms_of quarter) = Num (max (bound (bedrooms_of quarter)) (Fin 1))"
    by blast
  then have one: "or_one (bedrooms_of quarter) = Num (Fin 2)"
    by (simp add: rooms bound_def max_def less_eq_xnum_def)
  from t quot small have "parseFloat (price_per_room quarter) = Num (Fin (round_half_away (1 / 8)))"
    by blast
  then have reads: "parseFloat (price_per_room quarter) = Num (Fin (13 / 100))"
    by (simp add: r)
  from t tie have away: "\<bar>1 / 8 :: rat\<bar> < \<bar>round_half_away (1 / 8)\<bar>"
    by blast
  from t len have "get (arr (heap (fst (computeStats_mut priced))) (filteredListings priced) ! 0)
         ''price_per_room''
       = JStr (toFixed2 (as_double
                 (js_div (as_double (price_of (arr (heap priced) (filteredListings priced) ! 0)))
                    (as_double (or_one (bedrooms_of (arr (heap priced) (filteredListings priced) ! 0)))))))"
    by (auto split: prod.splits)
  then have "get (arr (heap (fst (computeStats_mut priced))) (filteredListings priced) ! 0)
         ''price_per_room'' = JStr (Lit ''1.00'')"
    by (simp only: first)
  then show ?thesis
    using nonneg one quot small reads tie away len by blast
qed

subsection \<open>The two filters\<close>

lemma price_of_getNumber: "price_of l = getNumber l ''price''"
proof -
  have "or_zero (parseFloat (Lit ''undefined'')) = or_zero (parseFloat (Lit ''0''))"
    and "or_zero (parseFloat (Lit [])) = or_zero (parseFloat (Lit ''0''))"
    by (simp_all add: or_zero_def parse_defs)
  then show ?thesis
    by (cases "get l ''price''"; cases "strip_currency (ToString (get l ''price''))")
      (simp_all add: price_of_def getNumber_def Let_def)
qed

lemma parseInt_whole:
  assumes "of_int \<lfloor>q\<rfloor> = q" "\<bar>q\<bar> < 10 ^ 21"
  shows "parseInt_decimal q = Num (Fin q)"
proof -
  obtain n :: int where q: "q = of_int n"
    using assms(1) by metis
  have plain: "q = 0 \<or> (1 / 10 ^ 6 \<le> \<bar>q\<bar> \<and> \<bar>q\<bar> < 10 ^ 21)"
  proof (cases "n = 0")
    case True
    then show ?thesis by (simp add: q)
  next
    case False
    then have "1 \<le> \<bar>n\<bar>"
      by linarith
    then have "(1 :: rat) \<le> \<bar>of_int n\<bar>"
      by (metis of_int_1 of_int_abs of_int_le_iff)
    moreover have "(1 :: rat) / 10 ^ 6 \<le> 1"
      by simp
    ultimately have "1 / 10 ^ 6 \<le> \<bar>q\<bar>"
      unfolding q by (rule order_trans [rotated])
    then show ?thesis
      using assms(2) by blast
  qed
  have "(if q < 0 then - of_int \<lfloor>- q\<rfloor> else of_int \<lfloor>q\<rfloor>) = q"
    unfolding q by simp
  then show ?thesis
    unfolding parseInt_decimal_def using plain by (simp only: if_True)
qed

lemma bedrooms_of_getNumber:
  assumes "whole_rooms (get l ''bedrooms'')"
  shows "bedrooms_of l = getNumber l ''bedrooms''"
proof -
  have words: "or_zero (parseInt (Lit ''undefined'')) = or_zero (parseFloat (Lit ''0''))"
    "or_zero (parseInt (Lit ''null'')) = or_zero (parseFloat (Lit ''0''))"
    "or_zero (parseInt (Lit ''true'')) = or_zero (parseFloat (Lit ''true''))"
    "or_zero (parseInt (Lit ''false'')) = or_zero (parseFloat (Lit ''false''))"
    "or_zero (parseInt (Lit ''NaN'')) = or_zero (parseFloat (Lit ''NaN''))"
    by (simp_all add: or_zero_def parse_defs)
  show ?thesis
  proof (cases "get l ''bedrooms''")
    case (JNum n)
    then show ?thesis
      using assms words
      by (cases n rule: js_neg.cases)
        (simp_all add: whole_rooms_def bedrooms_of_def getNumber_def parseInt_whole)
  qed (use assms words in \<open>simp_all add: whole_rooms_def bedrooms_of_def getNumber_def\<close>)
qed

lemma score_of_getNumber:
  assumes "no_currency (get l ''review_scores_rating'')"
  shows "score_of l = getNumber l ''review_scores_rating''"
proof -
  have words: "or_zero (parseFloat (Lit ''undefined'')) = or_zero (parseFloat (Lit ''0''))"
    "or_zero (parseFloat (Lit ''null'')) = or_zero (parseFloat (Lit ''0''))"
    "or_zero (parseFloat (Lit [])) = or_zero (parseFloat (Lit ''0''))"
    by (simp_all add: or_zero_def parse_defs)
  show ?thesis
  proof (cases "get l ''review_scores_rating''")
    case (JStr s)
    show ?thesis
    proof (cases s)
      case (Lit t)
      then have "filter (\<lambda>c. c \<noteq> CHR ''$'' \<and> c \<noteq> CHR '','') t = t"
        using assms JStr by (auto simp: no_currency_def intro: filter_True)
      then show ?thesis
        using words JStr Lit by (simp add: score_of_def getNumber_def)
    next
      case (Decimal q)
      then show ?thesis
        using JStr by (simp add: score_of_def getNumber_def)
    qed
  next
    case (JNum n)
    then show ?thesis
      by (cases n rule: js_neg.cases) (simp_all add: score_of_def getNumber_def)
  qed (use words in \<open>simp_all add: score_of_def getNumber_def\<close>)
qed

lemma loaded_half_reachable:
  "readCsv [half_room] (AirBnBDataHandler empty_store) = loaded_half"
  by (simp add: readCsv_def AirBnBDataHandler_def alloc_def empty_store_def loaded_half_def
      Let_def numeral_2_eq_2)

lemma filter_mut_new_address:
  "filter_mut fs h = Inr h' \<Longrightarrow> filteredListings h' = fresh (heap h)"
  by (auto simp: filter_mut_def alloc_def Let_def split: option.splits)

text \<open>
  C10, as the claim states it, fails: the two filters do not always select the same
  listings. For a listing with 2.5 bedrooms and the bounds 2 to 2 on the rooms, integer
  parsing reads 2 and the mutating handler keeps the listing; floating-point parsing reads
  2.5 and the pure handler drops it.
\<close>

theorem filters_differ_counterexample:
  "array_at 2 (filter_mut two_rooms loaded_half) = Some [half_room]
   \<and> filterListings (arr (heap loaded_half) 1) two_rooms = []"
  by (simp add: array_at_def filter_mut_def filterListings_def loaded_half_def two_rooms_def
      half_room_def alloc_def Let_def js_ge_def mut_extract_defs getNumber_def
      parseInt_decimal_def floor_rat_numeral)

text \<open>
  C10, amended: the two filters select exactly the same listings, for every criteria, on a
  dataset in which every listing's bedrooms value is no text and no infinity and, when it is
  a finite number, is a whole number below \<open>1e21\<close>, and in which no review score is text
  holding \<open>$\<close> or \<open>,\<close>. The two tests of the sentinel agree on every bound.
\<close>

theorem filters_agree_on_whole_rooms:
  "data h = Some d
   \<and> (\<forall>l \<in> set (arr (heap h) d).
         whole_rooms (get l ''bedrooms'') \<and> no_currency (get l ''review_scores_rating''))
   \<longrightarrow> (\<exists>h'. filter_mut fs h = Inr h'
             \<and> arr (heap h') (filteredListings h') = filterListings (arr (heap h) d) fs)"
proof (intro impI, elim conjE)
  assume d: "data h = Some d"
    and ok: "\<forall>l \<in> set (arr (heap h) d).
         whole_rooms (get l ''bedrooms'') \<and> no_currency (get l ''review_scores_rating'')"
  have "filter (\<lambda>listing.
          (price_max fs = Fin 0
             \<or> (js_ge (price_of listing) (Num (price_min fs)) \<and> js_le (price_of listing) (Num (price_max fs))))
          \<and> (room_max fs = Fin 0
             \<or> (js_ge (bedrooms_of listing) (Num (room_min fs)) \<and> js_le (bedrooms_of listing) (Num (room_max fs))))
          \<and> (score_max fs = Fin 0
             \<or> (js_ge (score_of listing) (Num (score_min fs)) \<and> js_le (score_of listing) (Num (score_max fs)))))
        (arr (heap h) d)
      = filterListings (arr (heap h) d) fs"
    unfolding filterListings_def Let_def truthy_Num_iff
    by (rule filter_cong)
      (use ok in \<open>auto simp: price_of_getNumber bedrooms_of_getNumber score_of_getNumber\<close>)
  then show "\<exists>h'. filter_mut fs h = Inr h'
             \<and> arr (heap h') (filteredListings h') = filterListings (arr (heap h) d) fs"
    by (simp add: filter_mut_def d alloc_def Let_def)
qed

theorem filters_agree_on_whole_rooms_witness:
  "data working = Some 1
   \<and> arr (heap working) 1 = [listing_a1, listing_b]
   \<and> whole_rooms (get listing_a1 ''bedrooms'')
   \<and> no_currency (get listing_a1 ''review_scores_rating'')
   \<and> whole_rooms (get listing_b ''bedrooms'')
   \<and> no_currency (get listing_b ''review_scores_rating'')
   \<and> array_at 3 (filter_mut two_rooms working) = Some [listing_a1]"
proof -
  have d: "data working = Some 1"
    by (simp add: working_def)
  have ok: "\<forall>l \<in> set (arr (heap working) 1).
         whole_rooms (get l ''bedrooms'') \<and> no_currency (get l ''review_scores_rating'')"
    by (simp add: working_def listing_a1_def listing_b_def get_def whole_rooms_def
        no_currency_def floor_rat_numeral)
  have pure: "filterListings (arr (heap working) 1) two_rooms = [listing_a1]"
    by (simp add: filterListings_def working_def two_rooms_def listing_a1_def listing_b_def
        Let_def js_ge_def extract_defs)
  have new: "\<And>h'. filter_mut two_rooms working = Inr h' \<Longrightarrow> filteredListings h' = 3"
    using filter_mut_new_address [of two_rooms working] by (simp add: working_def)
  from filters_agree_on_whole_rooms [of working 1 two_rooms] d ok
  obtain h' where "filter_mut two_rooms working = Inr h'"
    and "arr (heap h') (filteredListings h') = filterListings (arr (heap working) 1) two_rooms"
    by blast
  then have "array_at 3 (filter_mut two_rooms working) = Some [listing_a1]"
    using new [of h'] pure by (simp add: array_at_def)
  moreover have "arr (heap working) 1 = [listing_a1, listing_b]"
    by (simp add: working_def)
  ultimately show ?thesis
    using d ok by simp
qed

subsection \<open>Property keys\<close>

lemma digit_not_zero:
  fixes d :: nat
  assumes "0 < d" and "d < 10"
  shows "char_of (48 + d) \<noteq> CHR ''0''"
proof
  assume "char_of (48 + d) = CHR ''0''"
  then have "digit_val (char_of (48 + d)) = digit_val (CHR ''0'')"
    by simp
  moreover have "digit_val (char_of (48 + d)) = d"
    using digit_char [OF assms(2)] by blast
  moreover have "digit_val (CHR ''0'') = 0"
    by (simp add: digit_val_def)
  ultimately show False
    using assms(1) by simp
qed

lemma hd_dec_digits: "0 < n \<Longrightarrow> hd (dec_digits n) \<noteq> CHR ''0''"
proof (induction n rule: dec_digits.induct)
  case (1 n)
  show ?case
  proof (cases "n < 10")
    case True
    then show ?thesis
      using 1(2) by (subst dec_digits.simps) (simp add: digit_not_zero)
  next
    case False
    then have "hd (dec_digits (n div 10)) \<noteq> CHR ''0''"
      using 1(1) by simp
    then show ?thesis
      using False by (subst dec_digits.simps) (simp add: dec_digits_nonempty)
  qed
qed

lemma index_text_dec_digits:
  assumes "n \<le> 4294967294"
  shows "is_index_text (dec_digits n)" and "key_of_text (dec_digits n) = Index n"
proof -
  have "dec_digits n = ''0'' \<or> hd (dec_digits n) \<noteq> CHR ''0''"
  proof (cases "n = 0")
    case True
    then show ?thesis by (simp add: dec_digits_small digit_chars)
  next
    case False
    then show ?thesis by (simp add: hd_dec_digits)
  qed
  then show "is_index_text (dec_digits n)"
    using assms by (simp add: is_index_text_def dec_digits_nonempty dec_digits_all nat_of_dec_digits)
  then show "key_of_text (dec_digits n) = Index n"
    by (simp add: key_of_text_def nat_of_dec_digits)
qed

text \<open>
  A whole number from 0 to 4294967294 and the text of its digits are one key, an array index.
\<close>

lemma key_of_whole:
  assumes "n \<le> 4294967294"
  shows "key_of (Decimal (of_nat n)) = Index n" and "key_of (Lit (dec_digits n)) = Index n"
proof -
  have "rat_of_nat n \<le> rat_of_nat 4294967294"
    using assms by (simp only: of_nat_le_iff)
  then have "rat_of_nat n < 2 ^ 53"
    by simp
  then have "number_text (of_nat n) = dec_digits n"
    by (simp add: number_text_def)
  then show "key_of (Decimal (of_nat n)) = Index n"
    using assms by (simp add: index_text_dec_digits)
  show "key_of (Lit (dec_digits n)) = Index n"
    using assms by (simp add: index_text_dec_digits)
qed

lemma example_ids:
  "ToPropertyKey (JNum (Num (Fin 1))) = Index 1"
  "ToPropertyKey (JNum (Num (Fin 2))) = Index 2"
  "ToPropertyKey (JNum (Num (Fin 7))) = Index 7"
  "ToPropertyKey (JStr (Lit ''constructor'')) = Name ''constructor''"
  using key_of_whole(1) [of 1] key_of_whole(1) [of 2] key_of_whole(1) [of 7]
  by (simp_all add: ToPropertyKey_def key_of_text_def is_index_text_def is_digit_def)

text \<open>
  The number -1 and the text \<open>-1\<close> are one key, and so are 1.5 and the text \<open>1.5\<close>; neither
  is an array index.
\<close>

lemma number_and_text_keys:
  "ToPropertyKey (JNum (Num (Fin (- 1)))) = Name ''-1''"
  "ToPropertyKey (JStr (Lit ''-1'')) = Name ''-1''"
  by (simp_all add: ToPropertyKey_def key_of_text_def is_index_text_def is_digit_def
      number_text_def dec_digits_small digit_chars)

subsection \<open>Ranking the hosts\<close>

lemma insort_key_map:
  "insort_key f (h a) (map h xs) = map h (insort_key (\<lambda>x. f (h x)) a xs)"
  by (induction xs) simp_all

lemma sort_key_map: "sort_key f (map h xs) = map h (sort_key (\<lambda>x. f (h x)) xs)"
  by (induction xs) (simp_all add: insort_key_map)

lemma own_entries_map:
  "own_entries (map (\<lambda>k. (k, g k)) ks) = map (\<lambda>k. (k, g k)) (enumerate_keys ks)"
  by (simp add: own_entries_def enumerate_keys_def sort_key_map filter_map comp_def)

lemma set_enumerate_keys: "set (enumerate_keys ks) = set ks"
  by (auto simp: enumerate_keys_def)

lemma mset_enumerate_keys: "mset (enumerate_keys ks) = mset ks"
  by (simp add: enumerate_keys_def)

lemma distinct_enumerate_keys: "distinct (enumerate_keys ks) = distinct ks"
  using mset_enumerate_keys [of ks] by (metis mset_eq_imp_distinct_iff)

lemma length_enumerate_keys: "length (enumerate_keys ks) = length ks"
  using mset_enumerate_keys [of ks] by (metis size_mset)

lemma sort_key_sort_key_append:
  "sort_key f (sort_key f xs @ ys) = sort_key f (xs @ ys)"
proof (rule properties_for_sort_key)
  show "mset (sort_key f (xs @ ys)) = mset (sort_key f xs @ ys)"
    by simp
  show "sorted (map f (sort_key f (xs @ ys)))"
    by simp
  fix k
  have "filter (\<lambda>x. f x = f k) (sort_key f (xs @ ys)) = filter (\<lambda>x. f x = f k) (xs @ ys)"
    by (rule sort_key_stable)
  moreover have "filter (\<lambda>x. f x = f k) (sort_key f xs) = filter (\<lambda>x. f x = f k) xs"
    by (rule sort_key_stable)
  ultimately have "filter (\<lambda>x. f x = f k) (sort_key f (xs @ ys))
      = filter (\<lambda>x. f x = f k) (sort_key f xs @ ys)"
    by simp
  then show "filter (\<lambda>x. f k = f x) (sort_key f (xs @ ys))
      = filter (\<lambda>x. f k = f x) (sort_key f xs @ ys)"
    by (simp add: eq_commute)
qed

lemma enumerate_keys_snoc:
  "enumerate_keys (enumerate_keys ks @ [k]) = enumerate_keys (ks @ [k])"
proof -
  have "sort_key index_of (sort_key index_of (filter is_index ks) @ ys)
          = sort_key index_of (filter is_index ks @ ys)" for ys
    by (rule sort_key_sort_key_append)
  from this [of "[k]"] this [of "[]"] show ?thesis
    by (simp add: enumerate_keys_def del: sort_key_simps)
qed

lemma enumerate_keys_idem: "enumerate_keys (enumerate_keys ks) = enumerate_keys ks"
  using sort_key_sort_key_append [of index_of "filter is_index ks" "[]"]
  by (simp add: enumerate_keys_def)

subsection \<open>Keys in the order of first appearance\<close>

lemma first_seen_snoc:
  "first_seen (xs @ [x]) = (if x \<in> set xs then first_seen xs else first_seen xs @ [x])"
  by (simp add: first_seen_def)

lemma set_first_seen: "set (first_seen xs) = set xs"
  by (simp add: first_seen_def)

lemma distinct_first_seen: "distinct (first_seen xs)"
  by (simp add: first_seen_def)

lemma length_first_seen: "length (first_seen xs) = card (set xs)"
  using distinct_card [OF distinct_first_seen, of xs] by (simp add: set_first_seen)

subsection \<open>Updating an object\<close>

lemma update_absent: "k \<notin> fst ` set al \<Longrightarrow> AList.update k v al = al @ [(k, v)]"
  by (induction al) auto

lemma update_present:
  "k \<in> set ks \<Longrightarrow> distinct ks \<Longrightarrow>
     AList.update k v (map (\<lambda>k. (k, g k)) ks) = map (\<lambda>k'. (k', if k' = k then v else g k')) ks"
  by (induction ks) auto

lemma map_of_keys:
  "map_of (map (\<lambda>k. (k, g k)) ks) k = (if k \<in> set ks then Some (g k) else None)"
  by (induction ks) auto


subsection \<open>The hosts object\<close>

lemma listing_count_snoc:
  "listing_count (p @ [l]) k = listing_count p k + (if host_key l = k then 1 else 0)"
  by (simp add: listing_count_def)

lemma listing_count_absent: "k \<notin> host_key ` set p \<Longrightarrow> listing_count p k = 0"
  by (simp add: listing_count_def count_list_0_iff)

lemma first_name_snoc:
  "first_name (p @ [l]) k =
     (if k \<in> host_key ` set p then first_name p k
      else if host_key l = k then get l ''host_name'' else JUndefined)"
proof (induction p)
  case Nil
  then show ?case by (simp add: first_name_def)
next
  case (Cons a p)
  then show ?case by (auto simp: first_name_def)
qed

lemma last_name_snoc:
  "last_name (p @ [l]) k = (if host_key l = k then get l ''host_name'' else last_name p k)"
  by (simp add: last_name_def first_name_def)

lemma counted_step:
  assumes "\<not> inherited kl" and "distinct ks"
  shows "(case map_of (map (\<lambda>k. (k, g k)) ks) kl of
            Some e \<Rightarrow> AList.update kl (fst e, js_add (snd e) (Num (Fin 1))) (map (\<lambda>k. (k, g k)) ks)
          | None \<Rightarrow>
              if kl = Name ''__proto__'' then map (\<lambda>k. (k, g k)) ks
              else
                (case inherited_function kl of
                   Some f \<Rightarrow> AList.update kl (JStr (Lit f), NaN) (map (\<lambda>k. (k, g k)) ks)
                 | None \<Rightarrow> AList.update kl (name, Num (Fin 1)) (map (\<lambda>k. (k, g k)) ks)))
       = (if kl \<in> set ks
          then map (\<lambda>k'. (k', if k' = kl then (fst (g kl), js_add (snd (g kl)) (Num (Fin 1)))
                             else g k')) ks
          else map (\<lambda>k. (k, g k)) ks @ [(kl, (name, Num (Fin 1)))])"
proof (cases "kl \<in> set ks")
  case True
  then show ?thesis
    using assms(2) by (simp add: map_of_keys update_present)
next
  case False
  have "kl \<notin> fst ` set (map (\<lambda>k. (k, g k)) ks)"
    using False by (simp add: image_image)
  then have "AList.update kl (name, Num (Fin 1)) (map (\<lambda>k. (k, g k)) ks)
      = map (\<lambda>k. (k, g k)) ks @ [(kl, (name, Num (Fin 1)))]"
    by (rule update_absent)
  then show ?thesis
    using False assms(1) by (simp add: map_of_keys inherited_def)
qed

lemma mut_hosts_fold:
  fixes step :: "counted_hosts \<Rightarrow> listing \<Rightarrow> counted_hosts"
  defines "step \<equiv> \<lambda>acc listing.
            (case map_of acc (ToPropertyKey (get listing ''host_id'')) of
               Some g \<Rightarrow>
                 AList.update (ToPropertyKey (get listing ''host_id''))
                   (fst g, js_add (snd g) (Num (Fin 1))) acc
             | None \<Rightarrow>
                 if ToPropertyKey (get listing ''host_id'') = Name ''__proto__'' then acc
                 else
                   (case inherited_function (ToPropertyKey (get listing ''host_id'')) of
                      Some f \<Rightarrow>
                        AList.update (ToPropertyKey (get listing ''host_id''))
                          (JStr (Lit f), NaN) acc
                    | None \<Rightarrow>
                        AList.update (ToPropertyKey (get listing ''host_id''))
                          (get listing ''host_name'', Num (Fin 1)) acc))"
  assumes plain: "\<forall>l \<in> set ds. \<not> inherited (host_key l)"
  shows "foldl step [] ds
     = map (\<lambda>k. (k, (first_name ds k, Num (Fin (of_nat (listing_count ds k))))))
         (first_seen (map host_key ds))"
  using plain
proof (induction ds rule: rev_induct)
  case Nil
  show ?case by (simp add: first_seen_def)
next
  case (snoc l p)
  define ks where "ks = first_seen (map host_key p)"
  define g where "g = (\<lambda>k. (first_name p k, Num (Fin (rat_of_nat (listing_count p k)))))"
  have ks: "set ks = host_key ` set p" "distinct ks"
    by (simp_all add: ks_def set_first_seen distinct_first_seen)
  have hk: "ToPropertyKey (get l ''host_id'') = host_key l"
    by (simp add: host_key_def)
  have own: "\<not> inherited (host_key l)"
    using snoc.prems by simp
  have "foldl step [] p = map (\<lambda>k. (k, g k)) ks"
    using snoc by (simp add: ks_def g_def)
  then have last: "foldl step [] (p @ [l]) = step (map (\<lambda>k. (k, g k)) ks) l"
    by simp
  have "foldl step [] (p @ [l])
      = (case map_of (map (\<lambda>k. (k, g k)) ks) (host_key l) of
           Some e \<Rightarrow> AList.update (host_key l) (fst e, js_add (snd e) (Num (Fin 1)))
                       (map (\<lambda>k. (k, g k)) ks)
         | None \<Rightarrow>
             if host_key l = Name ''__proto__'' then map (\<lambda>k. (k, g k)) ks
             else
               (case inherited_function (host_key l) of
                  Some f \<Rightarrow> AList.update (host_key l) (JStr (Lit f), NaN) (map (\<lambda>k. (k, g k)) ks)
                | None \<Rightarrow> AList.update (host_key l) (get l ''host_name'', Num (Fin 1))
                            (map (\<lambda>k. (k, g k)) ks)))"
    unfolding last unfolding step_def hk by (rule refl)
  also have "\<dots> = (if host_key l \<in> set ks
          then map (\<lambda>k'. (k', if k' = host_key l
                             then (fst (g (host_key l)), js_add (snd (g (host_key l))) (Num (Fin 1)))
                             else g k')) ks
          else map (\<lambda>k. (k, g k)) ks @ [(host_key l, (get l ''host_name'', Num (Fin 1)))])"
    using own ks(2) by (rule counted_step)
  finally have step: "foldl step [] (p @ [l])
      = (if host_key l \<in> set ks
          then map (\<lambda>k'. (k', if k' = host_key l
                             then (fst (g (host_key l)), js_add (snd (g (host_key l))) (Num (Fin 1)))
                             else g k')) ks
          else map (\<lambda>k. (k, g k)) ks @ [(host_key l, (get l ''host_name'', Num (Fin 1)))])" .
  show ?case
  proof (cases "host_key l \<in> set ks")
    case True
    have "map (\<lambda>k'. (k', if k' = host_key l
                          then (fst (g (host_key l)), js_add (snd (g (host_key l))) (Num (Fin 1)))
                          else g k')) ks
        = map (\<lambda>k. (k, (first_name (p @ [l]) k,
                         Num (Fin (rat_of_nat (listing_count (p @ [l]) k)))))) ks"
      using ks(1) by (intro map_cong) (auto simp: g_def first_name_snoc listing_count_snoc)
    then show ?thesis
      unfolding step using True ks(1) by (simp add: first_seen_snoc ks_def)
  next
    case False
    have "map (\<lambda>k. (k, g k)) ks
        = map (\<lambda>k. (k, (first_name (p @ [l]) k,
                         Num (Fin (rat_of_nat (listing_count (p @ [l]) k)))))) ks"
      using ks(1) False by (intro map_cong) (auto simp: g_def first_name_snoc listing_count_snoc)
    moreover have "(get l ''host_name'', Num (Fin 1))
        = (first_name (p @ [l]) (host_key l),
           Num (Fin (rat_of_nat (listing_count (p @ [l]) (host_key l)))))"
      using False ks(1) by (simp add: first_name_snoc listing_count_snoc listing_count_absent)
    ultimately show ?thesis
      unfolding step using False ks(1) by (simp add: first_seen_snoc ks_def)
  qed
qed

lemma pure_hosts_fold:
  fixes step :: "hosts \<Rightarrow> listing \<Rightarrow> hosts"
  defines "step \<equiv> \<lambda>acc listing.
                 AList.update (ToPropertyKey (get listing ''host_id''))
                   (get listing ''host_name'',
                    (case map_of acc (ToPropertyKey (get listing ''host_id'')) of
                       Some g \<Rightarrow> snd g | None \<Rightarrow> 0) + 1)
                   (own_entries acc)"
  shows "\<exists>xs. foldl step [] ds = map (\<lambda>k. (k, (last_name ds k, listing_count ds k))) xs
        \<and> distinct xs
        \<and> enumerate_keys xs = enumerate_keys (first_seen (map host_key ds))"
proof (induction ds rule: rev_induct)
  case Nil
  show ?case by (simp add: first_seen_def)
next
  case (snoc l p)
  then obtain xs where acc: "foldl step [] p = map (\<lambda>k. (k, (last_name p k, listing_count p k))) xs"
    and xs: "distinct xs" "enumerate_keys xs = enumerate_keys (first_seen (map host_key p))"
    by blast
  define eks where "eks = enumerate_keys xs"
  have set_xs: "set xs = host_key ` set p"
    using xs(2) set_enumerate_keys [of xs] set_enumerate_keys [of "first_seen (map host_key p)"]
    by (simp add: set_first_seen)
  have eks: "set eks = host_key ` set p" "distinct eks"
    by (simp_all add: eks_def set_enumerate_keys set_xs distinct_enumerate_keys xs(1))
  have count: "(case map_of (map (\<lambda>k. (k, (last_name p k, listing_count p k))) xs) (host_key l) of
                  Some g \<Rightarrow> snd g | None \<Rightarrow> 0) = listing_count p (host_key l)"
    by (simp add: map_of_keys set_xs listing_count_absent)
  have hk: "ToPropertyKey (get l ''host_id'') = host_key l"
    by (simp add: host_key_def)
  have last: "foldl step [] (p @ [l])
      = step (map (\<lambda>k. (k, (last_name p k, listing_count p k))) xs) l"
    by (simp add: acc)
  have "foldl step [] (p @ [l])
        = AList.update (host_key l)
            (get l ''host_name'',
             (case map_of (map (\<lambda>k. (k, (last_name p k, listing_count p k))) xs) (host_key l) of
                  Some g \<Rightarrow> snd g | None \<Rightarrow> 0) + 1)
            (own_entries (map (\<lambda>k. (k, (last_name p k, listing_count p k))) xs))"
    unfolding last unfolding step_def hk by (rule refl)
  then have step: "foldl step [] (p @ [l])
        = AList.update (host_key l) (get l ''host_name'', listing_count p (host_key l) + 1)
            (map (\<lambda>k. (k, (last_name p k, listing_count p k))) eks)"
    by (simp only: count own_entries_map eks_def)
  show ?case
  proof (cases "host_key l \<in> host_key ` set p")
    case True
    have m: "map (\<lambda>k'. (k', if k' = host_key l
                          then (get l ''host_name'', listing_count p (host_key l) + 1)
                          else (last_name p k', listing_count p k'))) eks
        = map (\<lambda>k. (k, (last_name (p @ [l]) k, listing_count (p @ [l]) k))) eks"
      by (intro map_cong) (auto simp: last_name_snoc listing_count_snoc)
    have "host_key l \<in> set eks"
      using True eks(1) by simp
    then have "AList.update (host_key l) (get l ''host_name'', listing_count p (host_key l) + 1)
            (map (\<lambda>k. (k, (last_name p k, listing_count p k))) eks)
        = map (\<lambda>k'. (k', if k' = host_key l
                          then (get l ''host_name'', listing_count p (host_key l) + 1)
                          else (last_name p k', listing_count p k'))) eks"
      using eks(2) by (rule update_present)
    then have "foldl step [] (p @ [l])
        = map (\<lambda>k. (k, (last_name (p @ [l]) k, listing_count (p @ [l]) k))) eks"
      by (simp only: step m)
    moreover have "enumerate_keys eks = enumerate_keys (first_seen (map host_key (p @ [l])))"
      using True by (simp add: eks_def enumerate_keys_idem xs(2) first_seen_snoc)
    ultimately show ?thesis
      using eks(2) by blast
  next
    case False
    have m: "map (\<lambda>k. (k, (last_name p k, listing_count p k))) eks
        = map (\<lambda>k. (k, (last_name (p @ [l]) k, listing_count (p @ [l]) k))) eks"
      using eks(1) False by (intro map_cong) (auto simp: last_name_snoc listing_count_snoc)
    have absent: "host_key l \<notin> fst ` set (map (\<lambda>k. (k, (last_name p k, listing_count p k))) eks)"
      using False eks(1) by (simp add: image_image)
    have new: "(get l ''host_name'', listing_count p (host_key l) + 1)
        = (last_name (p @ [l]) (host_key l), listing_count (p @ [l]) (host_key l))"
      by (simp add: last_name_snoc listing_count_snoc)
    have "AList.update (host_key l) (get l ''host_name'', listing_count p (host_key l) + 1)
            (map (\<lambda>k. (k, (last_name p k, listing_count p k))) eks)
        = map (\<lambda>k. (k, (last_name p k, listing_count p k))) eks
            @ [(host_key l, (get l ''host_name'', listing_count p (host_key l) + 1))]"
      using absent by (rule update_absent)
    then have "foldl step [] (p @ [l])
        = map (\<lambda>k. (k, (last_name (p @ [l]) k, listing_count (p @ [l]) k))) (eks @ [host_key l])"
      by (simp only: step m new) simp
    moreover have "enumerate_keys (eks @ [host_key l])
        = enumerate_keys (first_seen (map host_key (p @ [l])))"
      using False
      by (simp add: eks_def xs(2) enumerate_keys_snoc first_seen_snoc set_first_seen)
    moreover have "distinct (eks @ [host_key l])"
      using False eks by simp
    ultimately show ?thesis
      by blast
  qed
qed


subsection \<open>The ranking\<close>

lemma by_count_sort: "js_sort by_count xs = sort_key (\<lambda>e. - int (snd (snd e))) xs"
  by (rule js_sort_sort_key) (auto simp: by_count_def js_sub_def)

lemma sort_insert_map:
  "sort_insert cmp (h x) (map h ys) = map h (sort_insert (\<lambda>a b. cmp (h a) (h b)) x ys)"
  by (induction ys) simp_all

lemma js_sort_map: "js_sort cmp (map h xs) = map h (js_sort (\<lambda>a b. cmp (h a) (h b)) xs)"
  by (induction xs) (simp_all add: js_sort_def sort_insert_map)

lemma sortedHosts_closed:
  assumes "\<forall>l \<in> set ds. \<not> inherited (host_key l)"
  shows "sortedHosts ds
     = map (\<lambda>k. (k, (first_name ds k, Num (Fin (of_nat (listing_count ds k)))))) (host_order ds)"
proof -
  define h where "h = (\<lambda>k. (k, (first_name ds k, Num (Fin (rat_of_nat (listing_count ds k))))))"
  have order: "js_sort (\<lambda>a b. by_count_mut (h a) (h b)) xs
      = sort_key (\<lambda>k. - int (listing_count ds k)) xs" for xs
    by (rule js_sort_sort_key) (auto simp: by_count_mut_def h_def js_sub_def)
  have "sortedHosts ds = js_sort by_count_mut (own_entries (map h (first_seen (map host_key ds))))"
    unfolding sortedHosts_def mut_hosts_fold [OF assms] h_def by (rule refl)
  also have "\<dots> = js_sort by_count_mut (map h (enumerate_keys (first_seen (map host_key ds))))"
    by (simp add: h_def own_entries_map)
  also have "\<dots> = map h (host_order ds)"
    by (simp add: js_sort_map order host_order_def)
  finally show ?thesis
    by (simp add: h_def)
qed

text \<open>
  Whatever the ids are, an entry of the mutating handler under the name of an inherited
  method is that method with the count NaN, and no entry is under \<open>__proto__\<close>.
\<close>

lemma update_entries:
  "(k', v') \<in> set (AList.update k v al) \<Longrightarrow> (k', v') = (k, v) \<or> (k', v') \<in> set al"
  by (induction al) (auto split: if_splits)

lemma counted_step_inherited:
  assumes inv: "\<And>k e. (k, e) \<in> set acc \<Longrightarrow>
      k \<noteq> Name ''__proto__'' \<and> (\<forall>f. inherited_function k = Some f \<longrightarrow> e = (JStr (Lit f), NaN))"
    and mem: "(k, e) \<in> set
      (case map_of acc kl of
         Some g \<Rightarrow> AList.update kl (fst g, js_add (snd g) (Num (Fin 1))) acc
       | None \<Rightarrow>
           if kl = Name ''__proto__'' then acc
           else
             (case inherited_function kl of
                Some f \<Rightarrow> AList.update kl (JStr (Lit f), NaN) acc
              | None \<Rightarrow> AList.update kl (name, Num (Fin 1)) acc))"
  shows "k \<noteq> Name ''__proto__'' \<and> (\<forall>f. inherited_function k = Some f \<longrightarrow> e = (JStr (Lit f), NaN))"
proof (cases "map_of acc kl")
  case None
  show ?thesis
  proof (cases "kl = Name ''__proto__''")
    case True
    then show ?thesis
      using mem None inv by simp
  next
    case False
    show ?thesis
    proof (cases "inherited_function kl")
      case none: None
      then have "(k, e) \<in> set (AList.update kl (name, Num (Fin 1)) acc)"
        using mem None False by simp
      then have "(k, e) = (kl, (name, Num (Fin 1))) \<or> (k, e) \<in> set acc"
        by (rule update_entries)
      then show ?thesis
      proof
        assume "(k, e) = (kl, (name, Num (Fin 1)))"
        then show ?thesis
          using none False by simp
      next
        assume "(k, e) \<in> set acc"
        then show ?thesis
          by (rule inv)
      qed
    next
      case (Some f)
      then have "(k, e) \<in> set (AList.update kl (JStr (Lit f), NaN) acc)"
        using mem None False by simp
      then have "(k, e) = (kl, (JStr (Lit f), NaN)) \<or> (k, e) \<in> set acc"
        by (rule update_entries)
      then show ?thesis
      proof
        assume "(k, e) = (kl, (JStr (Lit f), NaN))"
        then show ?thesis
          using Some False by simp
      next
        assume "(k, e) \<in> set acc"
        then show ?thesis
          by (rule inv)
      qed
    qed
  qed
next
  case (Some g)
  then have g: "(kl, g) \<in> set acc"
    by (rule map_of_SomeD)
  have "(k, e) \<in> set (AList.update kl (fst g, js_add (snd g) (Num (Fin 1))) acc)"
    using mem Some by simp
  then have "(k, e) = (kl, (fst g, js_add (snd g) (Num (Fin 1)))) \<or> (k, e) \<in> set acc"
    by (rule update_entries)
  then show ?thesis
  proof
    assume new: "(k, e) = (kl, (fst g, js_add (snd g) (Num (Fin 1))))"
    have "kl \<noteq> Name ''__proto__''"
      using inv [OF g] by simp
    moreover have "e = (JStr (Lit f), NaN)" if "inherited_function k = Some f" for f
    proof -
      have "g = (JStr (Lit f), NaN)"
        using inv [OF g] that new by simp
      then show ?thesis
        using new by simp
    qed
    ultimately show ?thesis
      using new by simp
  next
    assume "(k, e) \<in> set acc"
    then show ?thesis
      by (rule inv)
  qed
qed

lemma mut_hosts_inherited:
  fixes step :: "counted_hosts \<Rightarrow> listing \<Rightarrow> counted_hosts"
  defines "step \<equiv> \<lambda>acc listing.
            (case map_of acc (ToPropertyKey (get listing ''host_id'')) of
               Some g \<Rightarrow>
                 AList.update (ToPropertyKey (get listing ''host_id''))
                   (fst g, js_add (snd g) (Num (Fin 1))) acc
             | None \<Rightarrow>
                 if ToPropertyKey (get listing ''host_id'') = Name ''__proto__'' then acc
                 else
                   (case inherited_function (ToPropertyKey (get listing ''host_id'')) of
                      Some f \<Rightarrow>
                        AList.update (ToPropertyKey (get listing ''host_id''))
                          (JStr (Lit f), NaN) acc
                    | None \<Rightarrow>
                        AList.update (ToPropertyKey (get listing ''host_id''))
                          (get listing ''host_name'', Num (Fin 1)) acc))"
  shows "(k, e) \<in> set (foldl step [] ds) \<Longrightarrow>
     k \<noteq> Name ''__proto__'' \<and> (\<forall>f. inherited_function k = Some f \<longrightarrow> e = (JStr (Lit f), NaN))"
proof (induction ds arbitrary: k e rule: rev_induct)
  case Nil
  then show ?case by simp
next
  case (snoc l p)
  define acc where "acc = foldl step [] p"
  have last: "foldl step [] (p @ [l]) = step acc l"
    by (simp add: acc_def)
  have "foldl step [] (p @ [l])
      = (case map_of acc (ToPropertyKey (get l ''host_id'')) of
           Some g \<Rightarrow>
             AList.update (ToPropertyKey (get l ''host_id''))
               (fst g, js_add (snd g) (Num (Fin 1))) acc
         | None \<Rightarrow>
             if ToPropertyKey (get l ''host_id'') = Name ''__proto__'' then acc
             else
               (case inherited_function (ToPropertyKey (get l ''host_id'')) of
                  Some f \<Rightarrow> AList.update (ToPropertyKey (get l ''host_id'')) (JStr (Lit f), NaN) acc
                | None \<Rightarrow>
                    AList.update (ToPropertyKey (get l ''host_id''))
                      (get l ''host_name'', Num (Fin 1)) acc))"
    unfolding last unfolding step_def by (rule refl)
  then have mem: "(k, e) \<in> set
      (case map_of acc (ToPropertyKey (get l ''host_id'')) of
           Some g \<Rightarrow>
             AList.update (ToPropertyKey (get l ''host_id''))
               (fst g, js_add (snd g) (Num (Fin 1))) acc
         | None \<Rightarrow>
             if ToPropertyKey (get l ''host_id'') = Name ''__proto__'' then acc
             else
               (case inherited_function (ToPropertyKey (get l ''host_id'')) of
                  Some f \<Rightarrow> AList.update (ToPropertyKey (get l ''host_id'')) (JStr (Lit f), NaN) acc
                | None \<Rightarrow>
                    AList.update (ToPropertyKey (get l ''host_id''))
                      (get l ''host_name'', Num (Fin 1)) acc))"
    using snoc.prems by simp
  have inv: "k \<noteq> Name ''__proto__'' \<and> (\<forall>f. inherited_function k = Some f \<longrightarrow> e = (JStr (Lit f), NaN))"
    if "(k, e) \<in> set acc" for k e
    using that snoc.IH by (simp add: acc_def)
  from inv mem show ?case
    by (rule counted_step_inherited)
qed

lemma set_sort_insert: "set (sort_insert cmp x ys) = insert x (set ys)"
  by (induction ys) auto

lemma set_js_sort: "set (js_sort cmp xs) = set xs"
  by (induction xs) (simp_all add: js_sort_def set_sort_insert)

lemma set_own_entries: "set (own_entries obj) = set obj"
  by (auto simp: own_entries_def)

lemma sortedHosts_inherited:
  assumes "(k, e) \<in> set (sortedHosts ds)" and "inherited_function k = Some f"
  shows "e = (JStr (Lit f), NaN)"
  using assms mut_hosts_inherited [of k e ds]
  unfolding sortedHosts_def set_js_sort set_own_entries by blast

lemma sortedHosts_no_proto: "Name ''__proto__'' \<notin> fst ` set (sortedHosts ds)"
proof
  assume "Name ''__proto__'' \<in> fst ` set (sortedHosts ds)"
  then obtain e where "(Name ''__proto__'', e) \<in> set (sortedHosts ds)"
    by auto
  then show False
    using mut_hosts_inherited [of "Name ''__proto__''" e ds]
    unfolding sortedHosts_def set_js_sort set_own_entries by blast
qed

lemma rankHosts_closed:
  "rankHosts ds = map (\<lambda>k. (k, (last_name ds k, listing_count ds k))) (host_order ds)"
proof -
  obtain xs where "foldl (\<lambda>acc listing.
                 AList.update (ToPropertyKey (get listing ''host_id''))
                   (get listing ''host_name'',
                    (case map_of acc (ToPropertyKey (get listing ''host_id'')) of
                       Some g \<Rightarrow> snd g | None \<Rightarrow> 0) + 1)
                   (own_entries acc))
              [] ds = map (\<lambda>k. (k, (last_name ds k, listing_count ds k))) xs"
    and "enumerate_keys xs = enumerate_keys (first_seen (map host_key ds))"
    using pure_hosts_fold [of ds] by blast
  then show ?thesis
    unfolding rankHosts_def
    by (simp add: by_count_sort own_entries_map sort_key_map host_order_def)
qed

lemma set_host_order: "set (host_order ds) = host_key ` set ds"
  by (simp add: host_order_def set_enumerate_keys set_first_seen)

lemma distinct_host_order: "distinct (host_order ds)"
  by (simp add: host_order_def distinct_enumerate_keys distinct_first_seen)

lemma length_host_order: "length (host_order ds) = card (host_key ` set ds)"
  using distinct_card [OF distinct_host_order, of ds] by (simp add: set_host_order)

lemma sorted_host_order:
  "sorted_wrt (\<lambda>a b. listing_count ds b \<le> listing_count ds a) (host_order ds)"
proof -
  have "sorted (map (\<lambda>k. - int (listing_count ds k)) (host_order ds))"
    by (simp add: host_order_def)
  then show ?thesis
    by (simp add: sorted_map)
qed

lemma sum_host_order: "sum_list (map (listing_count ds) (host_order ds)) = length ds"
proof -
  have "sum_list (map (listing_count ds) (host_order ds))
          = sum (count_list (map host_key ds)) (set (map host_key ds))"
    using sum_list_distinct_conv_sum_set [OF distinct_host_order, of "listing_count ds" ds]
    by (simp add: set_host_order listing_count_def [abs_def])
  also have "\<dots> = length (map host_key ds)"
    by (rule sum_count_set) simp_all
  finally show ?thesis by simp
qed

lemma slice_nat: "slice xs (int n) = take n xs"
  by (simp add: slice_def)

lemma sum_list_take_le:
  fixes f :: "'a \<Rightarrow> nat"
  shows "sum_list (map f (take n xs)) \<le> sum_list (map f xs)"
proof -
  have "sum_list (map f xs) = sum_list (map f (take n xs)) + sum_list (map f (drop n xs))"
    by (metis append_take_drop_id map_append sum_list_append)
  then show ?thesis by simp
qed


lemma handler_rankHosts_take:
  "handler_rankHosts st d (Some (int n))
     = take n (map (\<lambda>k. (k, (last_name (arr st d) k, listing_count (arr st d) k)))
                 (host_order (arr st d)))"
  by (simp add: handler_rankHosts_def slice_nat rankHosts_closed)

text \<open>
  C5: for every dataset and every limit (10 when none is given), \<open>rankHosts\<close> of the handler
  returns exactly min(limit, number of distinct host ids) entries, the ids told apart as the
  keys of the hosts object; the entries are in descending order of their counts and each is
  an entry of the full ranking; the counts returned sum to at most the number of listings,
  and to exactly that number when the limit is not below the number of distinct hosts.
\<close>

theorem rank_length_order_sum:
  "length (handler_rankHosts st d (Some (int n))) = min n (card (host_key ` set (arr st d)))
   \<and> sorted_wrt (\<lambda>a b. snd (snd b) \<le> snd (snd a)) (handler_rankHosts st d (Some (int n)))
   \<and> sum_list (map (\<lambda>e. snd (snd e)) (handler_rankHosts st d (Some (int n)))) \<le> length (arr st d)
   \<and> (card (host_key ` set (arr st d)) \<le> n \<longrightarrow>
        sum_list (map (\<lambda>e. snd (snd e)) (handler_rankHosts st d (Some (int n))))
          = length (arr st d))
   \<and> set (handler_rankHosts st d (Some (int n))) \<subseteq> set (rankHosts (arr st d))
   \<and> handler_rankHosts st d None = handler_rankHosts st d (Some (int 10))"
proof -
  define ds where "ds = arr st d"
  define entry where "entry = (\<lambda>k. (k, (last_name ds k, listing_count ds k)))"
  have r: "handler_rankHosts st d (Some (int n)) = take n (map entry (host_order ds))"
    by (simp add: handler_rankHosts_take ds_def entry_def)
  have counts: "map (\<lambda>e. snd (snd e)) (map entry xs) = map (listing_count ds) xs" for xs
    by (simp add: entry_def)
  have len: "length (handler_rankHosts st d (Some (int n))) = min n (card (host_key ` set ds))"
    by (simp add: r length_host_order min.commute)
  have "sorted_wrt (\<lambda>a b. snd (snd b) \<le> snd (snd a)) (map entry (host_order ds))"
    using sorted_host_order [of ds] by (simp add: sorted_wrt_map entry_def)
  then have ordered: "sorted_wrt (\<lambda>a b. snd (snd b) \<le> snd (snd a))
      (handler_rankHosts st d (Some (int n)))"
    unfolding r by (rule sorted_wrt_take)
  have "sum_list (map (\<lambda>e. snd (snd e)) (take n (map entry (host_order ds))))
          \<le> sum_list (map (\<lambda>e. snd (snd e)) (map entry (host_order ds)))"
    by (rule sum_list_take_le)
  then have le: "sum_list (map (\<lambda>e. snd (snd e)) (handler_rankHosts st d (Some (int n))))
      \<le> length ds"
    unfolding r counts by (simp add: sum_host_order)
  have all: "sum_list (map (\<lambda>e. snd (snd e)) (handler_rankHosts st d (Some (int n)))) = length ds"
    if "card (host_key ` set ds) \<le> n"
  proof -
    have "take n (map entry (host_order ds)) = map entry (host_order ds)"
      using that by (simp add: length_host_order)
    then show ?thesis
      unfolding r by (simp only: counts sum_host_order)
  qed
  have sub: "set (handler_rankHosts st d (Some (int n))) \<subseteq> set (rankHosts ds)"
    unfolding r rankHosts_closed entry_def by (rule set_take_subset)
  have dflt: "handler_rankHosts st d None = handler_rankHosts st d (Some (int 10))"
    by (simp add: handler_rankHosts_def)
  show ?thesis
    using len ordered le all sub dflt unfolding ds_def by blast
qed

lemma example_keys:
  "host_key listing_a1 = Index 1" "host_key listing_a2 = Index 1" "host_key listing_b = Index 2"
  by (simp_all add: host_key_def get_def listing_a1_def listing_a2_def listing_b_def example_ids)

theorem rank_length_order_sum_witness:
  "card (host_key ` set (arr stored 0)) \<le> 10
   \<and> length (handler_rankHosts stored 0 (Some (int 10))) = 2
   \<and> sum_list (map (\<lambda>e. snd (snd e)) (handler_rankHosts stored 0 (Some (int 10)))) = 3"
proof -
  have c: "card (host_key ` set (arr stored 0)) = 2"
    by (simp add: stored_def example_keys)
  have l: "length (arr stored 0) = 3"
    by (simp add: stored_def)
  note t = rank_length_order_sum [of stored 0 10]
  from t have "length (handler_rankHosts stored 0 (Some (int 10))) = min 10 2"
    unfolding c by blast
  moreover from t have "sum_list (map (\<lambda>e. snd (snd e)) (handler_rankHosts stored 0 (Some (int 10)))) = 3"
    unfolding c l by simp
  ultimately show ?thesis
    by (simp add: c)
qed


lemmas rank_eval_defs = rankHosts_def sortedHosts_def js_sort_def own_entries_def by_count_def
  by_count_mut_def js_sub_def example_ids get_def first_seen_def host_key_def
  inherited_function_def

text \<open>
  C6, as the claim states it, fails: hosts with equally many listings are not ranked in the
  order of their first listings. The hosts object enumerates ids that are array indices in
  ascending order, so with host 2 first in the dataset and host 1 second, one listing each,
  both handlers rank host 1 before host 2.
\<close>

theorem rank_tie_order_counterexample:
  "rankHosts [listing_b, listing_a1]
     = [(Index 1, JStr (Lit ''A''), 1), (Index 2, JStr (Lit ''B''), 1)]
   \<and> sortedHosts [listing_b, listing_a1]
     = [(Index 1, JStr (Lit ''A''), Num (Fin 1)), (Index 2, JStr (Lit ''B''), Num (Fin 1))]
   \<and> first_seen (map host_key [listing_b, listing_a1]) = [Index 2, Index 1]"
  by (simp add: rank_eval_defs listing_a1_def listing_b_def)

text \<open>
  The two handlers differ on the name: the pure handler writes the name of every listing
  over the entry, so the last name stays; the mutating handler keeps the first.
\<close>

lemma renamed_host_ranking:
  "rankHosts renamed_host = [(Index 7, (JStr (Lit ''Bob''), 2))]
   \<and> sortedHosts renamed_host = [(Index 7, (JStr (Lit ''Ann''), Num (Fin 2)))]"
  by (simp add: rank_eval_defs renamed_host_def)

text \<open>
  They differ on an id that names a property every object inherits, too: for one listing
  of the host \<open>constructor\<close>, named X, the pure handler gives the name X and the count 1, the
  mutating handler the name \<open>Object\<close> and the count NaN.
\<close>

lemma inherited_id_ranking:
  "rankHosts inherited_id = [(Name ''constructor'', (JStr (Lit ''X''), 1))]
   \<and> sortedHosts inherited_id = [(Name ''constructor'', (JStr (Lit ''Object''), NaN))]"
  by (simp add: rank_eval_defs inherited_id_def)

text \<open>
  C6, amended: \<open>rankHosts\<close> groups the listings by the property key of \<open>host_id\<close> (its text, so
  that a number and the text spelling it are one host) and counts each group; the groups
  are in descending order of count, and groups with equal counts keep the order in which the
  hosts object enumerates its keys: ids that are array indices first, ascending, then the
  other ids in the order in which each host's first listing appeared. This holds of the pure
  handler for every dataset, and of the mutating handler for every dataset in which no id
  names a property that every object inherits (\<open>constructor\<close>, \<open>toString\<close>, \<open>__proto__\<close> and
  the like); there a group carries the name on the first listing of its host. In the
  mutating handler an id that names an inherited method has that method's name and the
  count NaN, and the id \<open>__proto__\<close> has no entry.
\<close>

theorem rank_groups_and_ties:
  "map fst (rankHosts ds) = host_order ds
   \<and> map (\<lambda>e. snd (snd e)) (rankHosts ds) = map (listing_count ds) (host_order ds)
   \<and> ((\<forall>l \<in> set ds. \<not> inherited (host_key l)) \<longrightarrow>
        sortedHosts ds
          = map (\<lambda>k. (k, (first_name ds k, Num (Fin (of_nat (listing_count ds k))))))
              (host_order ds))
   \<and> ((k, e) \<in> set (sortedHosts ds) \<and> inherited_function k = Some f \<longrightarrow>
        e = (JStr (Lit f), NaN))
   \<and> Name ''__proto__'' \<notin> fst ` set (sortedHosts ds)
   \<and> listing_count ds k = length (filter (\<lambda>l. host_key l = k) ds)
   \<and> set (host_order ds) = host_key ` set ds
   \<and> distinct (host_order ds)
   \<and> sorted_wrt (\<lambda>a b. listing_count ds b \<le> listing_count ds a) (host_order ds)
   \<and> filter (\<lambda>k. listing_count ds k = c) (host_order ds)
       = filter (\<lambda>k. listing_count ds k = c) (enumerate_keys (first_seen (map host_key ds)))
   \<and> enumerate_keys ks = filter is_index (enumerate_keys ks) @ filter (\<lambda>k. \<not> is_index k) ks
   \<and> sorted (map index_of (filter is_index (enumerate_keys ks)))"
proof -
  have keys: "map fst (rankHosts ds) = host_order ds"
    by (simp add: rankHosts_closed comp_def)
  have counts: "map (\<lambda>e. snd (snd e)) (rankHosts ds) = map (listing_count ds) (host_order ds)"
    by (simp add: rankHosts_closed comp_def)
  have mut: "(\<forall>l \<in> set ds. \<not> inherited (host_key l)) \<longrightarrow>
        sortedHosts ds
          = map (\<lambda>k. (k, (first_name ds k, Num (Fin (of_nat (listing_count ds k))))))
              (host_order ds)"
    using sortedHosts_closed [of ds] by blast
  have inh: "(k, e) \<in> set (sortedHosts ds) \<and> inherited_function k = Some f \<longrightarrow>
        e = (JStr (Lit f), NaN)"
    using sortedHosts_inherited [of k e ds f] by blast
  have group: "listing_count ds k = length (filter (\<lambda>l. host_key l = k) ds)"
    by (simp add: listing_count_def count_list_eq_length_filter length_filter_map comp_def
        eq_commute)
  have "filter (\<lambda>k. - int (listing_count ds k) = - int c) (host_order ds)
      = filter (\<lambda>k. - int (listing_count ds k) = - int c)
          (enumerate_keys (first_seen (map host_key ds)))"
    unfolding host_order_def by (rule sort_key_stable)
  then have ties: "filter (\<lambda>k. listing_count ds k = c) (host_order ds)
       = filter (\<lambda>k. listing_count ds k = c) (enumerate_keys (first_seen (map host_key ds)))"
    by simp
  have idx: "filter is_index (enumerate_keys ks) = sort_key index_of (filter is_index ks)"
  proof -
    have "filter is_index (sort_key index_of (filter is_index ks))
        = sort_key index_of (filter is_index ks)"
      by (rule filter_True) simp
    then show ?thesis
      by (simp add: enumerate_keys_def)
  qed
  have split: "enumerate_keys ks
      = filter is_index (enumerate_keys ks) @ filter (\<lambda>k. \<not> is_index k) ks"
    unfolding idx by (simp add: enumerate_keys_def)
  have asc: "sorted (map index_of (filter is_index (enumerate_keys ks)))"
    unfolding idx by simp
  show ?thesis
    using keys counts mut inh sortedHosts_no_proto [of ds] group set_host_order [of ds]
      distinct_host_order [of ds] sorted_host_order [of ds] ties split asc
    by blast
qed

theorem rank_groups_and_ties_witness:
  "\<not> inherited (host_key listing_b) \<and> \<not> inherited (host_key listing_a1)
   \<and> sortedHosts [listing_b, listing_a1]
       = [(Index 1, (JStr (Lit ''A''), Num (Fin 1))), (Index 2, (JStr (Lit ''B''), Num (Fin 1)))]
   \<and> host_order [listing_b, listing_a1] = [Index 1, Index 2]
   \<and> (Name ''constructor'', (JStr (Lit ''Object''), NaN)) \<in> set (sortedHosts inherited_id)
   \<and> inherited_function (Name ''constructor'') = Some ''Object''"
proof -
  have plain: "\<not> inherited (host_key listing_b)" "\<not> inherited (host_key listing_a1)"
    by (simp_all add: example_keys inherited_def inherited_function_def)
  then have "\<forall>l \<in> set [listing_b, listing_a1]. \<not> inherited (host_key l)"
    by simp
  with rank_groups_and_ties [of "[listing_b, listing_a1]"]
  have closed: "sortedHosts [listing_b, listing_a1]
       = map (\<lambda>k. (k, (first_name [listing_b, listing_a1] k,
                        Num (Fin (of_nat (listing_count [listing_b, listing_a1] k))))))
           (host_order [listing_b, listing_a1])"
    by blast
  have "map fst (rankHosts [listing_b, listing_a1]) = host_order [listing_b, listing_a1]"
    using rank_groups_and_ties [of "[listing_b, listing_a1]"] by blast
  moreover have "map fst (rankHosts [listing_b, listing_a1]) = [Index 1, Index 2]"
    by (simp add: rank_eval_defs listing_a1_def listing_b_def)
  ultimately have order: "host_order [listing_b, listing_a1] = [Index 1, Index 2]"
    by simp
  have names: "first_name [listing_b, listing_a1] (Index 1) = JStr (Lit ''A'')"
    "first_name [listing_b, listing_a1] (Index 2) = JStr (Lit ''B'')"
    by (simp_all add: first_name_def example_keys) (simp_all add: listing_a1_def listing_b_def get_def)
  have counts: "listing_count [listing_b, listing_a1] (Index 1) = 1"
    "listing_count [listing_b, listing_a1] (Index 2) = 1"
    by (simp_all add: listing_count_def example_keys)
  have ranking: "sortedHosts [listing_b, listing_a1]
       = [(Index 1, (JStr (Lit ''A''), Num (Fin 1))), (Index 2, (JStr (Lit ''B''), Num (Fin 1)))]"
    unfolding closed order by (simp only: list.map names counts) simp
  have f: "inherited_function (Name ''constructor'') = Some ''Object''"
    by (simp add: inherited_function_def)
  have "\<exists>e. (Name ''constructor'', e) \<in> set (sortedHosts inherited_id)"
    using inherited_id_ranking by simp
  then obtain e where e: "(Name ''constructor'', e) \<in> set (sortedHosts inherited_id)"
    by blast
  with rank_groups_and_ties [of inherited_id "Name ''constructor''" e "''Object''"] f
  have "e = (JStr (Lit ''Object''), NaN)"
    by blast
  with e have entry: "(Name ''constructor'', (JStr (Lit ''Object''), NaN))
      \<in> set (sortedHosts inherited_id)"
    by simp
  show ?thesis
    using plain ranking order entry f by blast
qed

end
